theory Spec2Isabelle
  imports Complex_Main
begin

section \<open>Data model\<close>

text \<open>
  The module \<^verbatim>\<open>xrmocap/utils/triangulation_utils.py\<close> works on numpy arrays of
  numbers. Of a mask element the code only asks whether it is NaN
  (\<^verbatim>\<open>np.isnan\<close>) and whether it equals \<^verbatim>\<open>1.0\<close>; of an element of the keypoint-validity
  vector whether it equals \<^verbatim>\<open>0\<close>. An element is therefore NaN, an infinity, or a finite
  number, which is given by its rational value (every finite double and every integer
  is a rational).
\<close>

datatype npfloat = NaN | PosInf | NegInf | Fin rat

fun isnan :: "npfloat \<Rightarrow> bool" where
  "isnan NaN = True"
| "isnan _ = False"

text \<open>\<^verbatim>\<open>x == c\<close> for a finite constant \<^verbatim>\<open>c\<close>: NaN and the infinities compare unequal.\<close>

fun float_eq :: "npfloat \<Rightarrow> rat \<Rightarrow> bool" where
  "float_eq (Fin x) c = (x = c)"
| "float_eq _ c = False"

text \<open>
  The element type of a numeric array is a floating-point type or an integer type. Only
  a floating-point array can hold NaN: numpy refuses to convert NaN to an integer.
\<close>

datatype dtype = Floating | Integer

text \<open>
  An \<^verbatim>\<open>np.ndarray\<close> is its shape, its element type and its elements in row-major (C)
  order. A well-formed array holds as many elements as its shape says.
\<close>

record ndarray =
  shape :: "nat list"
  dtype :: dtype
  data :: "npfloat list"

definition wf_ndarray :: "ndarray \<Rightarrow> bool" where
  "wf_ndarray a = (length (data a) = prod_list (shape a))"

text \<open>Row-major offset of a multi-index, and the element stored there.\<close>

fun flat_index :: "nat list \<Rightarrow> nat list \<Rightarrow> nat" where
  "flat_index (n # sh) (i # idx) = i * prod_list sh + flat_index sh idx"
| "flat_index _ _ = 0"

definition valid_index :: "nat list \<Rightarrow> nat list \<Rightarrow> bool" where
  "valid_index sh idx = list_all2 (\<lambda>i n. i < n) idx sh"

definition item :: "ndarray \<Rightarrow> nat list \<Rightarrow> npfloat" where
  "item a idx = data a ! flat_index (shape a) idx"

text \<open>
  What a caller may pass for \<^verbatim>\<open>points\<close>, \<^verbatim>\<open>points_mask\<close>, \<^verbatim>\<open>keypoints\<close> and
  \<^verbatim>\<open>keypoints_mask\<close>: \<^verbatim>\<open>None\<close>, an ndarray, a (nested) list or tuple of Python floats and ints, or
  any other object (a number, a string, a dict: something with no \<^verbatim>\<open>shape\<close>
  attribute).
\<close>

datatype pyseq = PyFloat npfloat | PyInt int | PySeq "pyseq list"

datatype pyarg =
    PyNone
  | NdArray ndarray
  | PyList "pyseq list"
  | PyTuple "pyseq list"
  | PyOther

text \<open>
  The failures of the module. The three shape checks of
  \<^verbatim>\<open>prepare_triangulate_input\<close> and the check of \<^verbatim>\<open>parse_keypoints_mask\<close> all
  \<^verbatim>\<open>raise ValueError\<close>, the two type checks \<^verbatim>\<open>raise TypeError\<close>; each logs its own
  message first, and the constructor records which check it was:
  \<^item> \<open>InvalidInput\<close>: TypeError after "Type of points / points_mask is not in
    (np.ndarray, list, tuple)", with the name of the argument;
  \<^item> \<open>ViewCountMismatch\<close>: ValueError after "View number of input does not equal to
    triangulator's camera number";
  \<^item> \<open>CoordWidthTooSmall\<close>: ValueError after "points.shape[-1] must not be fewer than 2";
  \<^item> \<open>MaskShapeMismatch\<close>: ValueError after "points_mask must be [n_view, ..., 1] like
    points";
  \<^item> \<open>KeypointCountMismatch\<close>: ValueError after "Keypoints number of points does not
    match length of keypoints_mask".
  The others are raised by Python or numpy with nothing logged: \<open>AttributeError\<close>
  (\<^verbatim>\<open>.shape\<close> of an object that has none), \<open>IndexError\<close> (an index or an axis out of
  range), \<open>NumpyValueError\<close> (\<^verbatim>\<open>np.asarray\<close> of a ragged sequence, \<^verbatim>\<open>reshape\<close> to a
  shape that does not fit, NaN assigned into an integer array), \<open>ScalarTypeError\<close> (\<^verbatim>\<open>int\<close> of an array that has not
  exactly one element) and \<open>ZeroDivisionError\<close>.
\<close>

datatype error =
    InvalidInput string
  | ViewCountMismatch
  | CoordWidthTooSmall
  | MaskShapeMismatch
  | KeypointCountMismatch
  | AttributeError
  | IndexError
  | NumpyValueError
  | ScalarTypeError
  | ZeroDivisionError

section \<open>numpy operations used by the module\<close>

text \<open>
  \<^verbatim>\<open>np.asarray\<close> of a nested sequence of numbers: the shape is read off the nesting,
  the elements are taken in order; a ragged sequence is refused. The array is an
  integer one when there are elements and all of them are Python ints (taken to fit
  the integer type), a floating-point one otherwise.
\<close>

fun seq_shape :: "pyseq \<Rightarrow> nat list option" where
  "seq_shape (PyFloat x) = Some []"
| "seq_shape (PyInt n) = Some []"
| "seq_shape (PySeq []) = Some [0]"
| "seq_shape (PySeq (y # ys)) =
     (case seq_shape y of
        None \<Rightarrow> None
      | Some s \<Rightarrow>
          if list_all (\<lambda>z. seq_shape z = Some s) ys
          then Some (Suc (length ys) # s) else None)"

fun seq_data :: "pyseq \<Rightarrow> npfloat list" where
  "seq_data (PyFloat x) = [x]"
| "seq_data (PyInt n) = [Fin (of_int n)]"
| "seq_data (PySeq ys) = concat (map seq_data ys)"

fun all_ints :: "pyseq \<Rightarrow> bool" where
  "all_ints (PyFloat x) = False"
| "all_ints (PyInt n) = True"
| "all_ints (PySeq ys) = list_all all_ints ys"

definition seq_dtype :: "pyseq \<Rightarrow> dtype" where
  "seq_dtype s = (if seq_data s \<noteq> [] \<and> all_ints s then Integer else Floating)"

definition np_asarray :: "pyseq list \<Rightarrow> error + ndarray" where
  "np_asarray ys =
     (case seq_shape (PySeq ys) of
        None \<Rightarrow> Inl NumpyValueError
      | Some s \<Rightarrow>
          Inr \<lparr>shape = s, dtype = seq_dtype (PySeq ys), data = seq_data (PySeq ys)\<rparr>)"

text \<open>\<^verbatim>\<open>a.shape[0]\<close>: a tuple index, out of range for a 0-dimensional array.\<close>

definition shape0 :: "ndarray \<Rightarrow> error + nat" where
  "shape0 a = (case shape a of [] \<Rightarrow> Inl IndexError | n # _ \<Rightarrow> Inr n)"

text \<open>
  \<^verbatim>\<open>np.ones_like(points[..., 0:1])\<close>: an array of ones of the shape and of the
  element type of the slice, which has the element type of \<^verbatim>\<open>points\<close>.
  The slice \<^verbatim>\<open>0:1\<close> keeps at most one entry of the last axis (none when the axis is
  empty), and a 0-dimensional array has no axis to slice.
\<close>

definition np_ones :: "dtype \<Rightarrow> nat list \<Rightarrow> ndarray" where
  "np_ones dt sh = \<lparr>shape = sh, dtype = dt, data = replicate (prod_list sh) (Fin 1)\<rparr>"

definition ones_like_first_coord :: "ndarray \<Rightarrow> error + ndarray" where
  "ones_like_first_coord points =
     (case shape points of
        [] \<Rightarrow> Inl IndexError
      | _ # _ \<Rightarrow>
          Inr (np_ones (dtype points)
                 (butlast (shape points) @ [min 1 (last (shape points))])))"

section \<open>prepare_triangulate_input\<close>

text \<open>
  Lines 130 to 136 and 139 to 146: a list or tuple is converted with \<^verbatim>\<open>np.asarray\<close>,
  an ndarray is kept, anything else fails the \<^verbatim>\<open>isinstance\<close> check.
\<close>

fun coerce :: "string \<Rightarrow> pyarg \<Rightarrow> error + ndarray" where
  "coerce name (NdArray a) = Inr a"
| "coerce name (PyList ys) = np_asarray ys"
| "coerce name (PyTuple ys) = np_asarray ys"
| "coerce name _ = Inl (InvalidInput name)"

text \<open>Lines 147 to 167: the three shape checks, on two ndarrays.\<close>

definition check_shapes :: "int \<Rightarrow> ndarray \<Rightarrow> ndarray \<Rightarrow> error + ndarray \<times> ndarray" where
  "check_shapes camera_number points points_mask =
     (case shape0 points of
        Inl e \<Rightarrow> Inl e
      | Inr p0 \<Rightarrow>
     (case shape0 points_mask of
        Inl e \<Rightarrow> Inl e
      | Inr m0 \<Rightarrow>
          if \<not> (p0 = m0 \<and> int p0 = camera_number) then Inl ViewCountMismatch
          else if last (shape points) < 2 then Inl CoordWidthTooSmall
          else if butlast (shape points) \<noteq> butlast (shape points_mask)
                  \<or> last (shape points_mask) \<noteq> 1
          then Inl MaskShapeMismatch
          else Inr (points, points_mask)))"

definition prepare_triangulate_input ::
    "int \<Rightarrow> pyarg \<Rightarrow> pyarg \<Rightarrow> error + ndarray \<times> ndarray" where
  "prepare_triangulate_input camera_number points points_mask =
     (case coerce ''points'' points of
        Inl e \<Rightarrow> Inl e
      | Inr p \<Rightarrow>
     (case (if points_mask = PyNone then ones_like_first_coord p
            else coerce ''points_mask'' points_mask) of
        Inl e \<Rightarrow> Inl e
      | Inr m \<Rightarrow> check_shapes camera_number p m))"

section \<open>get_valid_views_stats\<close>

text \<open>
  The statistics dictionary of Python keeps its keys in insertion order; it is an
  association list from the number of valid views to a float. The floats stored are
  counts and quotients of counts; they are given by their exact rational value (a count
  below \<open>2 ^ 53\<close> is exact in a double, a quotient is rounded to the nearest double by
  Python, which this model leaves out).
\<close>

type_synonym stats_dict = "(nat \<times> rat) list"

definition init_valid_views_dict :: "int \<Rightarrow> stats_dict" where
  "init_valid_views_dict concerned_n_view =
     map (\<lambda>n_view. (n_view, 0)) [0..<nat concerned_n_view]"

text \<open>\<^verbatim>\<open>n_valid in valid_stats_dict.keys()\<close> and \<^verbatim>\<open>valid_stats_dict[n_valid] += 1.0\<close>.\<close>

definition has_key :: "stats_dict \<Rightarrow> nat \<Rightarrow> bool" where
  "has_key d k = (k \<in> set (map fst d))"

definition increment :: "stats_dict \<Rightarrow> nat \<Rightarrow> stats_dict" where
  "increment d k = map (\<lambda>(k', v). if k' = k then (k', v + 1) else (k', v)) d"

text \<open>
  \<^verbatim>\<open>points_mask[:, point_index, 0]\<close>: every index of axis 0, one index of axis 1, index
  0 of axis 2, and all of any further axes. It needs three axes at least, the point
  index within axis 1 and axis 2 not empty.
\<close>

definition pair_data :: "ndarray \<Rightarrow> nat \<Rightarrow> error + ndarray" where
  "pair_data points_mask point_index =
     (case shape points_mask of
        n_view # n_point # w # rest \<Rightarrow>
          if point_index < n_point \<and> 0 < w
          then Inr \<lparr>shape = n_view # rest,
                    dtype = dtype points_mask,
                    data = concat (map (\<lambda>v. take (prod_list rest)
                       (drop (flat_index (shape points_mask) [v, point_index, 0])
                          (data points_mask))) [0..<n_view])\<rparr>
          else Inl IndexError
      | _ \<Rightarrow> Inl IndexError)"

text \<open>
  \<^verbatim>\<open>int(np.sum(pair_data == 1.0, axis=0))\<close>: the sum over axis 0 leaves the further
  axes; \<^verbatim>\<open>int\<close> takes an array of exactly one element. With one axis the sum is the
  number of entries equal to \<^verbatim>\<open>1.0\<close>.
\<close>

definition count_valid :: "ndarray \<Rightarrow> error + nat" where
  "count_valid pd =
     (if prod_list (tl (shape pd)) = 1
      then Inr (length (filter (\<lambda>x. float_eq x 1) (data pd)))
      else Inl ScalarTypeError)"

text \<open>
  Lines 59 to 71, the loop over the point indices, on the state it updates: the
  dictionary and \<^verbatim>\<open>total_pairs\<close>.
\<close>

fun count_pairs ::
    "ndarray \<Rightarrow> nat list \<Rightarrow> stats_dict \<times> int \<Rightarrow> error + stats_dict \<times> int" where
  "count_pairs points_mask [] st = Inr st"
| "count_pairs points_mask (point_index # todo) (d, total_pairs) =
     (case pair_data points_mask point_index of
        Inl e \<Rightarrow> Inl e
      | Inr pd \<Rightarrow>
          if length (filter isnan (data pd)) > 0
          then count_pairs points_mask todo (d, total_pairs - 1)
          else
            (case count_valid pd of
               Inl e \<Rightarrow> Inl e
             | Inr n_valid \<Rightarrow>
                 count_pairs points_mask todo
                   (if has_key d n_valid then increment d n_valid else d, total_pairs)))"

text \<open>Lines 73 to 76. Python's float division raises on a zero divisor.\<close>

definition float_div :: "rat \<Rightarrow> rat \<Rightarrow> error + rat" where
  "float_div x y = (if y = 0 then Inl ZeroDivisionError else Inr (x / y))"

fun divide_values :: "stats_dict \<Rightarrow> rat \<Rightarrow> error + stats_dict" where
  "divide_values [] t = Inr []"
| "divide_values ((k, v) # d) t =
     (case float_div v t of
        Inl e \<Rightarrow> Inl e
      | Inr q \<Rightarrow>
          (case divide_values d t of
             Inl e \<Rightarrow> Inl e
           | Inr d' \<Rightarrow> Inr ((k, q) # d')))"

text \<open>
  Lines 56 to 58: the initial state of the loop; \<^verbatim>\<open>points_mask.shape[1]\<close> needs two
  axes.
\<close>

definition count_all_pairs :: "ndarray \<Rightarrow> int \<Rightarrow> error + stats_dict \<times> int" where
  "count_all_pairs points_mask concerned_n_view =
     (case shape points_mask of
        _ # n_point # _ \<Rightarrow>
          count_pairs points_mask [0..<n_point]
            (init_valid_views_dict concerned_n_view, int n_point)
      | _ \<Rightarrow> Inl IndexError)"

text \<open>
  The function returns the dictionary and a table of it drawn by \<^verbatim>\<open>prettytable\<close>; the
  model returns the dictionary.
\<close>

definition get_valid_views_stats :: "ndarray \<Rightarrow> int \<Rightarrow> bool \<Rightarrow> error + stats_dict" where
  "get_valid_views_stats points_mask concerned_n_view return_rate =
     (case count_all_pairs points_mask concerned_n_view of
        Inl e \<Rightarrow> Inl e
      | Inr (valid_stats_dict, total_pairs) \<Rightarrow>
          if return_rate \<and> total_pairs > 0
          then divide_values valid_stats_dict (of_int total_pairs)
          else Inr valid_stats_dict)"

section \<open>parse_keypoints_mask\<close>

text \<open>\<^verbatim>\<open>x.shape\<close> is there for an ndarray only.\<close>

fun with_shape :: "pyarg \<Rightarrow> error + ndarray" where
  "with_shape (NdArray a) = Inr a"
| "with_shape _ = Inl AttributeError"

text \<open>
  \<^verbatim>\<open>np.where(keypoints_mask == 0)[0]\<close>: the axis-0 index of every element equal to
  zero, in storage order.
\<close>

definition where_zero_axis0 :: "ndarray \<Rightarrow> nat list" where
  "where_zero_axis0 keypoints_mask =
     map (\<lambda>j. j div prod_list (tl (shape keypoints_mask)))
       (filter (\<lambda>j. float_eq (data keypoints_mask ! j) 0)
          [0..<length (data keypoints_mask)])"

text \<open>
  \<^verbatim>\<open>a.reshape(-1, n, w)\<close>: numpy infers the first axis from the size of the array and
  refuses when \<open>n * w\<close> is zero or does not divide the size. \<^verbatim>\<open>a.reshape(*sh)\<close> needs
  the same size. Both keep the elements and their order.
\<close>

definition reshape_infer :: "ndarray \<Rightarrow> nat \<Rightarrow> nat \<Rightarrow> error + ndarray" where
  "reshape_infer a n w =
     (let size = prod_list (shape a) in
      if n * w = 0 \<or> size mod (n * w) \<noteq> 0 then Inl NumpyValueError
      else Inr (a\<lparr>shape := [size div (n * w), n, w]\<rparr>))"

definition reshape :: "ndarray \<Rightarrow> nat list \<Rightarrow> error + ndarray" where
  "reshape a sh =
     (if prod_list sh = prod_list (shape a) then Inr (a\<lparr>shape := sh\<rparr>)
      else Inl NumpyValueError)"

text \<open>
  \<^verbatim>\<open>a[:, idxs, :] = np.nan\<close> on an array of three axes. numpy first converts the value
  to the element type of the array, and raises ValueError for NaN and an integer type,
  whatever the indices. On a floating-point array every element whose axis-1 index is
  among \<open>idxs\<close> becomes NaN; an index beyond axis 1 is refused.
\<close>

definition set_nan_axis1 :: "ndarray \<Rightarrow> nat list \<Rightarrow> error + ndarray" where
  "set_nan_axis1 a idxs =
     (case shape a of
        [f, n, w] \<Rightarrow>
          if dtype a = Integer then Inl NumpyValueError
          else if list_all (\<lambda>i. i < n) idxs
          then Inr (a\<lparr>data := map (\<lambda>j. if (j div w) mod n \<in> set idxs then NaN
                                        else data a ! j) [0..<length (data a)]\<rparr>)
          else Inl IndexError
      | _ \<Rightarrow> Inl IndexError)"

text \<open>\<^verbatim>\<open>sh[-2]\<close> of a shape tuple.\<close>

definition shape_m2 :: "nat list \<Rightarrow> error + nat" where
  "shape_m2 sh = (if length sh < 2 then Inl IndexError else Inr (last (butlast sh)))"

text \<open>
  Lines 213 to 217: the mask is flattened to three axes, the invalid keypoints are
  marked, and the mask is given its shape of line 206 back.
\<close>

definition mark_invalid :: "ndarray \<Rightarrow> ndarray \<Rightarrow> error + ndarray" where
  "mark_invalid triangulate_mask keypoints_mask =
     (let init_points_mask_shape = shape triangulate_mask;
          nan_indexes = where_zero_axis0 keypoints_mask
      in case shape_m2 init_points_mask_shape of
           Inl e \<Rightarrow> Inl e
         | Inr n \<Rightarrow>
             (case reshape_infer triangulate_mask n (last init_points_mask_shape) of
                Inl e \<Rightarrow> Inl e
              | Inr flat \<Rightarrow>
                  (case set_nan_axis1 flat nan_indexes of
                     Inl e \<Rightarrow> Inl e
                   | Inr marked \<Rightarrow> reshape marked init_points_mask_shape)))"

text \<open>
  Lines 204 to 212: \<^verbatim>\<open>keypoints.shape[0]\<close> is read before the keypoints are
  normalised, with no mask; then \<^verbatim>\<open>keypoints.shape[-2]\<close> and
  \<^verbatim>\<open>keypoints_mask.shape[0]\<close> are read and compared.
\<close>

definition parse_keypoints_mask :: "pyarg \<Rightarrow> pyarg \<Rightarrow> error + ndarray" where
  "parse_keypoints_mask keypoints keypoints_mask =
     (case with_shape keypoints of
        Inl e \<Rightarrow> Inl e
      | Inr k0 \<Rightarrow>
     (case shape0 k0 of
        Inl e \<Rightarrow> Inl e
      | Inr n_view \<Rightarrow>
     (case prepare_triangulate_input (int n_view) keypoints PyNone of
        Inl e \<Rightarrow> Inl e
      | Inr (kp, triangulate_mask) \<Rightarrow>
     (case shape_m2 (shape kp) of
        Inl e \<Rightarrow> Inl e
      | Inr n_keypoints \<Rightarrow>
     (case with_shape keypoints_mask of
        Inl e \<Rightarrow> Inl e
      | Inr km \<Rightarrow>
     (case shape0 km of
        Inl e \<Rightarrow> Inl e
      | Inr n_mask \<Rightarrow>
          if n_keypoints \<noteq> n_mask then Inl KeypointCountMismatch
          else mark_invalid triangulate_mask km))))))"

section \<open>Reading a mask\<close>

text \<open>
  For a mask of three axes, \<open>[n_view, n_point, 1]\<close> as documented: the entries of one
  point over the views, whether one of them is NaN, how many of them are \<^verbatim>\<open>1.0\<close>, and how many of
  the points \<open>ps\<close> are free of NaN and have exactly \<open>k\<close> valid views. These read the
  array through \<^const>\<open>item\<close>, not through the code of the statistics.
\<close>

definition point_slice :: "ndarray \<Rightarrow> nat \<Rightarrow> npfloat list" where
  "point_slice m p = map (\<lambda>v. item m [v, p, 0]) [0..<hd (shape m)]"

definition hard_excluded :: "ndarray \<Rightarrow> nat \<Rightarrow> bool" where
  "hard_excluded m p = list_ex isnan (point_slice m p)"

definition n_valid :: "ndarray \<Rightarrow> nat \<Rightarrow> nat" where
  "n_valid m p = length (filter (\<lambda>x. x = Fin 1) (point_slice m p))"

definition bucket_count :: "ndarray \<Rightarrow> nat list \<Rightarrow> nat \<Rightarrow> nat" where
  "bucket_count m ps k = length (filter (\<lambda>p. \<not> hard_excluded m p \<and> n_valid m p = k) ps)"

section \<open>Indexing\<close>

lemma flat_index_lt: "valid_index sh idx \<Longrightarrow> flat_index sh idx < prod_list sh"
  unfolding valid_index_def
proof (induction idx sh rule: list_all2_induct)
  case Nil
  then show ?case by simp
next
  case (Cons i idx n sh)
  have "i * prod_list sh + flat_index sh idx < i * prod_list sh + prod_list sh"
    using Cons.IH by simp
  also have "\<dots> = Suc i * prod_list sh" by simp
  also have "\<dots> \<le> n * prod_list sh"
    using Cons.hyps(1) by (intro mult_le_mono1) simp
  finally show ?case by simp
qed

lemma flat_index_append:
  "length ipre = length pre \<Longrightarrow>
   flat_index (pre @ sh) (ipre @ i2) = flat_index pre ipre * prod_list sh + flat_index sh i2"
  by (induction ipre pre rule: list_induct2) (simp_all add: algebra_simps)

section \<open>The loop of get_valid_views_stats\<close>

lemma float_eq_iff: "float_eq x c \<longleftrightarrow> x = Fin c"
  by (cases x) auto

lemma take1_drop: "i < length xs \<Longrightarrow> take (Suc 0) (drop i xs) = [xs ! i]"
  by (simp add: take_Suc_conv_app_nth)

lemma concat_map_singleton:
  "\<forall>x\<in>set xs. f x = [g x] \<Longrightarrow> concat (map f xs) = map g xs"
  by (induction xs) simp_all

lemma pair_data_slice:
  assumes "shape m = [nv, np, w]" and "0 < w" and "wf_ndarray m" and "p < np"
  shows "pair_data m p = Inr \<lparr>shape = [nv], dtype = dtype m, data = point_slice m p\<rparr>"
proof -
  have "take (Suc 0) (drop (flat_index (shape m) [v, p, 0]) (data m)) = [item m [v, p, 0]]"
    if "v < nv" for v
  proof -
    have "valid_index (shape m) [v, p, 0]"
      using assms(1,2,4) that by (simp add: valid_index_def)
    then have "flat_index (shape m) [v, p, 0] < length (data m)"
      using flat_index_lt assms(3) by (simp add: wf_ndarray_def)
    then show ?thesis by (simp add: take1_drop item_def)
  qed
  then have "concat (map (\<lambda>v. take (Suc 0) (drop (flat_index (shape m) [v, p, 0]) (data m)))
        [0..<nv])
      = map (\<lambda>v. item m [v, p, 0]) [0..<nv]"
    by (intro concat_map_singleton) simp
  then show ?thesis
    using assms(1,2,4) by (simp add: pair_data_def point_slice_def)
qed

lemma pair_data_rank3:
  assumes "shape m = [nv, np, 1]" and "wf_ndarray m" and "p < np"
  shows "pair_data m p = Inr \<lparr>shape = [nv], dtype = dtype m, data = point_slice m p\<rparr>"
  using pair_data_slice[of m nv np 1 p] assms by simp

lemma increment_eq:
  "increment d n = map (\<lambda>(k, v). (k, v + (if k = n then 1 else 0))) d"
  by (induction d) (auto simp: increment_def)

lemma no_key_eq:
  "\<not> has_key d n \<Longrightarrow> d = map (\<lambda>(k, v). (k, v + (if k = n then 1 else 0))) d"
  by (induction d) (auto simp: has_key_def)

lemma count_pairs_slices:
  assumes "shape m = [nv, np, w]" and "0 < w" and "wf_ndarray m"
    and "\<forall>p\<in>set ps. p < np"
  shows "count_pairs m ps (d, t) =
     Inr (map (\<lambda>(k, v). (k, v + of_nat (bucket_count m ps k))) d,
          t - int (length (filter (hard_excluded m) ps)))"
  using assms(4)
proof (induction ps arbitrary: d t)
  case Nil
  then show ?case by (simp add: bucket_count_def)
next
  case (Cons p ps)
  have pd: "pair_data m p = Inr \<lparr>shape = [nv], dtype = dtype m, data = point_slice m p\<rparr>"
    using Cons.prems assms(1,2,3) by (simp add: pair_data_slice)
  have IH: "\<And>d t. count_pairs m ps (d, t) =
     Inr (map (\<lambda>(k, v). (k, v + of_nat (bucket_count m ps k))) d,
          t - int (length (filter (hard_excluded m) ps)))"
    using Cons by simp
  show ?case
  proof (cases "hard_excluded m p")
    case True
    then have "filter isnan (point_slice m p) \<noteq> []"
      by (auto simp: hard_excluded_def list_ex_iff filter_empty_conv)
    then show ?thesis
      using True pd IH by (simp add: bucket_count_def)
  next
    case False
    then have nonan: "filter isnan (point_slice m p) = []"
      by (auto simp: hard_excluded_def list_ex_iff filter_empty_conv)
    have cv: "count_valid \<lparr>shape = [nv], dtype = dtype m, data = point_slice m p\<rparr> = Inr (n_valid m p)"
      by (simp add: count_valid_def n_valid_def float_eq_iff)
    let ?d' = "if has_key d (n_valid m p) then increment d (n_valid m p) else d"
    have d': "?d' = map (\<lambda>(k, v). (k, v + (if k = n_valid m p then 1 else 0))) d"
      using increment_eq no_key_eq by (cases "has_key d (n_valid m p)") simp_all
    have "count_pairs m (p # ps) (d, t) = count_pairs m ps (?d', t)"
      using pd nonan cv by simp
    also have "\<dots> = Inr (map (\<lambda>(k, v). (k, v + of_nat (bucket_count m ps k))) ?d',
          t - int (length (filter (hard_excluded m) ps)))"
      by (rule IH)
    also have "map (\<lambda>(k, v). (k, v + of_nat (bucket_count m ps k))) ?d'
        = map (\<lambda>(k, v). (k, v + of_nat (bucket_count m (p # ps) k))) d"
      unfolding d' using False by (auto simp: bucket_count_def)
    finally show ?thesis using False by simp
  qed
qed

lemma count_all_pairs_slices:
  assumes "shape m = [nv, np, w]" and "0 < w" and "wf_ndarray m"
  shows "count_all_pairs m c =
     Inr (map (\<lambda>k. (k, of_nat (bucket_count m [0..<np] k))) [0..<nat c],
          int np - int (length (filter (hard_excluded m) [0..<np])))"
  using assms count_pairs_slices[OF assms, of "[0..<np]"]
  by (simp add: count_all_pairs_def init_valid_views_dict_def comp_def)

lemma count_all_pairs_rank3:
  assumes "shape m = [nv, np, 1]" and "wf_ndarray m"
  shows "count_all_pairs m c =
     Inr (map (\<lambda>k. (k, of_nat (bucket_count m [0..<np] k))) [0..<nat c],
          int np - int (length (filter (hard_excluded m) [0..<np])))"
  using count_all_pairs_slices[of m nv np 1 c] assms by simp

lemma divide_values_nonzero:
  "t \<noteq> 0 \<Longrightarrow> divide_values d t = Inr (map (\<lambda>(k, v). (k, v / t)) d)"
  by (induction d) (auto simp: float_div_def)

lemma excluded_le: "length (filter (hard_excluded m) [0..<np]) \<le> np"
  using length_filter_le[of "hard_excluded m" "[0..<np]"] by simp

lemma all_excluded_bucket_zero:
  assumes "length (filter (hard_excluded m) [0..<np]) = np"
  shows "bucket_count m [0..<np] k = 0"
proof -
  have "length (filter (hard_excluded m) [0..<np]) = length [0..<np]"
    using assms by simp
  then have "\<forall>p\<in>set [0..<np]. hard_excluded m p"
    by (metis filter_id_conv length_filter_less linorder_neq_iff)
  then show ?thesis
    by (simp add: bucket_count_def filter_empty_conv)
qed

lemma point_slice_in_data:
  assumes "shape m = [nv, np, 1]" and "wf_ndarray m" and "p < np"
  shows "set (point_slice m p) \<subseteq> set (data m)"
proof
  fix x assume "x \<in> set (point_slice m p)"
  then obtain v where v: "v < nv" and x: "x = item m [v, p, 0]"
    using assms(1) by (auto simp: point_slice_def)
  have "valid_index (shape m) [v, p, 0]"
    using assms(1,3) v by (simp add: valid_index_def)
  then have "flat_index (shape m) [v, p, 0] < length (data m)"
    using flat_index_lt assms(2) by (simp add: wf_ndarray_def)
  then show "x \<in> set (data m)"
    unfolding x item_def by simp
qed

lemma no_nan_not_excluded:
  assumes "shape m = [nv, np, 1]" and "wf_ndarray m" and "p < np"
    and "\<forall>x\<in>set (data m). \<not> isnan x"
  shows "\<not> hard_excluded m p"
  using point_slice_in_data[OF assms(1,2,3)] assms(4)
  by (auto simp: hard_excluded_def list_ex_iff)

lemma sum_buckets:
  "(\<Sum>k\<leftarrow>[0..<K]. length (filter (\<lambda>p. f p = k) ps)) = length (filter (\<lambda>p. f p < K) ps)"
proof (induction K)
  case 0
  then show ?case by simp
next
  case (Suc K)
  have "length (filter (\<lambda>p. f p < Suc K) ps)
      = length (filter (\<lambda>p. f p < K) ps) + length (filter (\<lambda>p. f p = K) ps)"
    by (induction ps) auto
  then show ?case using Suc by simp
qed

lemma split_at_threshold:
  "length (filter (\<lambda>p. f p < K) ps) + length (filter (\<lambda>p. \<not> f p < K) ps) = length ps"
  by (induction ps) auto

lemma of_nat_sum_list_map:
  "(\<Sum>k\<leftarrow>ks. (of_nat (f k) :: rat)) = of_nat (\<Sum>k\<leftarrow>ks. f k)"
  by (induction ks) simp_all

lemma has_key_range: "map fst d = [0..<nat c] \<Longrightarrow> has_key d k \<longleftrightarrow> int k < c"
  by (auto simp: has_key_def)

section \<open>Claims on get_valid_views_stats\<close>

text \<open>
  C2. For a mask of shape \<open>[n_view, n_point, 1]\<close>, a point whose slice over the views
  holds a NaN is hard-excluded: the loop passes it with the dictionary unchanged and
  \<^verbatim>\<open>total_pairs\<close> one less, so that after the loop \<^verbatim>\<open>total_pairs\<close> is \<open>n_point\<close> minus
  the number of such points, and every bucket counts points free of NaN only.
\<close>

theorem nan_pairs_hard_excluded:
  assumes "shape m = [nv, np, 1]" and "wf_ndarray m"
  shows "\<exists>d t. count_all_pairs m c = Inr (d, t)
       \<and> t = int np - int (length (filter (hard_excluded m) [0..<np]))
       \<and> d = map (\<lambda>k. (k, of_nat (length
                 (filter (\<lambda>p. \<not> hard_excluded m p \<and> n_valid m p = k) [0..<np]))))
               [0..<nat c]
       \<and> (\<forall>p<np. hard_excluded m p \<longrightarrow>
             (\<forall>d' t' todo. count_pairs m (p # todo) (d', t')
                = count_pairs m todo (d', t' - 1)))"
proof -
  have step: "count_pairs m (p # todo) (d', t') = count_pairs m todo (d', t' - 1)"
    if "p < np" and "hard_excluded m p" for p d' t' todo
  proof -
    have "filter isnan (point_slice m p) \<noteq> []"
      using that(2) by (auto simp: hard_excluded_def list_ex_iff filter_empty_conv)
    then show ?thesis
      using pair_data_rank3[OF assms that(1)] by simp
  qed
  show ?thesis
    using count_all_pairs_rank3[OF assms, of c] step
    by (simp add: bucket_count_def)
qed

theorem nan_pairs_hard_excluded_witness:
  "shape \<lparr>shape = [2, 3, 1], dtype = Floating, data = [NaN, Fin 1, Fin 1, Fin 1, Fin 0, Fin 1]\<rparr> = [2, 3, 1]
   \<and> wf_ndarray \<lparr>shape = [2, 3, 1], dtype = Floating, data = [NaN, Fin 1, Fin 1, Fin 1, Fin 0, Fin 1]\<rparr>
   \<and> hard_excluded \<lparr>shape = [2, 3, 1], dtype = Floating, data = [NaN, Fin 1, Fin 1, Fin 1, Fin 0, Fin 1]\<rparr> 0
   \<and> count_all_pairs \<lparr>shape = [2, 3, 1], dtype = Floating, data = [NaN, Fin 1, Fin 1, Fin 1, Fin 0, Fin 1]\<rparr> 3
       = Inr ([(0, 0), (1, 1), (2, 1)], 2)
   \<and> count_pairs \<lparr>shape = [2, 3, 1], dtype = Floating, data = [NaN, Fin 1, Fin 1, Fin 1, Fin 0, Fin 1]\<rparr>
        [0] ([(0, 0)], 3) = Inr ([(0, 0)], 2)"
proof -
  let ?m = "\<lparr>shape = [2, 3, 1], dtype = Floating, data = [NaN, Fin 1, Fin 1, Fin 1, Fin 0, Fin 1]\<rparr>"
  have s: "shape ?m = [2, 3, 1]" by simp
  have w: "wf_ndarray ?m" by (simp add: wf_ndarray_def)
  have h: "hard_excluded ?m 0" by code_simp
  from nan_pairs_hard_excluded[OF s w, of 3] obtain d t where
    cap: "count_all_pairs ?m 3 = Inr (d, t)"
    and t: "t = int 3 - int (length (filter (hard_excluded ?m) [0..<3]))"
    and d: "d = map (\<lambda>k. (k, of_nat (length
                 (filter (\<lambda>p. \<not> hard_excluded ?m p \<and> n_valid ?m p = k) [0..<3]))))
               [0..<nat 3]"
    and step: "\<forall>p<3. hard_excluded ?m p \<longrightarrow>
             (\<forall>d' t' todo. count_pairs ?m (p # todo) (d', t')
                = count_pairs ?m todo (d', t' - 1))"
    by blast
  have "t = 2" unfolding t by code_simp
  moreover have "d = [(0, 0), (1, 1), (2, 1)]" unfolding d by code_simp
  moreover have "count_pairs ?m [0] ([(0, 0)], 3) = Inr ([(0, 0)], 2)"
    using step h by simp
  ultimately show ?thesis using s w h cap by simp
qed

text \<open>
  C3. With \<^verbatim>\<open>return_rate\<close> true and \<^verbatim>\<open>total_pairs\<close> positive after the loop, every
  bucket is its raw count divided by \<^verbatim>\<open>total_pairs\<close>. With \<^verbatim>\<open>total_pairs\<close> zero the raw
  counts are returned, all of them zero, and nothing is raised: the division is
  guarded. \<^verbatim>\<open>total_pairs\<close> is never negative.
\<close>

theorem rate_division_guarded:
  assumes "shape m = [nv, np, 1]" and "wf_ndarray m"
  shows "\<exists>raw t. count_all_pairs m c = Inr (raw, t) \<and> 0 \<le> t
       \<and> get_valid_views_stats m c False = Inr raw
       \<and> (0 < t \<longrightarrow> get_valid_views_stats m c True
                      = Inr (map (\<lambda>(k, v). (k, v / of_int t)) raw))
       \<and> (t = 0 \<longrightarrow> get_valid_views_stats m c True = Inr raw
                      \<and> (\<forall>v\<in>set (map snd raw). v = 0))"
proof -
  let ?raw = "map (\<lambda>k. (k, of_nat (bucket_count m [0..<np] k) :: rat)) [0..<nat c]"
  let ?t = "int np - int (length (filter (hard_excluded m) [0..<np]))"
  have cap: "count_all_pairs m c = Inr (?raw, ?t)"
    by (rule count_all_pairs_rank3[OF assms])
  have nonneg: "0 \<le> ?t"
    using excluded_le[of m np] by simp
  have raw: "get_valid_views_stats m c False = Inr ?raw"
    using cap by (simp add: get_valid_views_stats_def)
  have rate: "get_valid_views_stats m c True = Inr (map (\<lambda>(k, v). (k, v / of_int ?t)) ?raw)"
    if "0 < ?t"
  proof -
    have "(of_int ?t :: rat) \<noteq> 0" using that by simp
    then show ?thesis
      using cap that divide_values_nonzero[of "of_int ?t" ?raw]
      by (simp add: get_valid_views_stats_def)
  qed
  have zero: "get_valid_views_stats m c True = Inr ?raw \<and> (\<forall>v\<in>set (map snd ?raw). v = 0)"
    if "?t = 0"
  proof -
    have "length (filter (hard_excluded m) [0..<np]) = np" using that by simp
    then have "bucket_count m [0..<np] k = 0" for k
      by (rule all_excluded_bucket_zero)
    then show ?thesis
      using cap that by (simp add: get_valid_views_stats_def)
  qed
  show ?thesis using cap nonneg raw rate zero by blast
qed

theorem rate_division_guarded_witness:
  "shape \<lparr>shape = [2, 3, 1], dtype = Floating, data = [NaN, Fin 1, Fin 1, Fin 1, Fin 0, Fin 1]\<rparr> = [2, 3, 1]
   \<and> wf_ndarray \<lparr>shape = [2, 3, 1], dtype = Floating, data = [NaN, Fin 1, Fin 1, Fin 1, Fin 0, Fin 1]\<rparr>
   \<and> count_all_pairs \<lparr>shape = [2, 3, 1], dtype = Floating, data = [NaN, Fin 1, Fin 1, Fin 1, Fin 0, Fin 1]\<rparr> 3
       = Inr ([(0, 0), (1, 1), (2, 1)], 2)
   \<and> get_valid_views_stats
        \<lparr>shape = [2, 3, 1], dtype = Floating, data = [NaN, Fin 1, Fin 1, Fin 1, Fin 0, Fin 1]\<rparr> 3 True
       = Inr [(0, 0), (1, 1 / 2), (2, 1 / 2)]
   \<and> shape \<lparr>shape = [2, 2, 1], dtype = Floating, data = [NaN, Fin 1, Fin 1, NaN]\<rparr> = [2, 2, 1]
   \<and> wf_ndarray \<lparr>shape = [2, 2, 1], dtype = Floating, data = [NaN, Fin 1, Fin 1, NaN]\<rparr>
   \<and> count_all_pairs \<lparr>shape = [2, 2, 1], dtype = Floating, data = [NaN, Fin 1, Fin 1, NaN]\<rparr> 3
       = Inr ([(0, 0), (1, 0), (2, 0)], 0)
   \<and> get_valid_views_stats \<lparr>shape = [2, 2, 1], dtype = Floating, data = [NaN, Fin 1, Fin 1, NaN]\<rparr> 3 True
       = Inr [(0, 0), (1, 0), (2, 0)]"
proof -
  let ?m = "\<lparr>shape = [2, 3, 1], dtype = Floating, data = [NaN, Fin 1, Fin 1, Fin 1, Fin 0, Fin 1]\<rparr>"
  let ?z = "\<lparr>shape = [2, 2, 1], dtype = Floating, data = [NaN, Fin 1, Fin 1, NaN]\<rparr>"
  have sm: "shape ?m = [2, 3, 1]" and sz: "shape ?z = [2, 2, 1]" by simp_all
  have wm: "wf_ndarray ?m" and wz: "wf_ndarray ?z" by (simp_all add: wf_ndarray_def)
  have cm: "count_all_pairs ?m 3 = Inr ([(0, 0), (1, 1), (2, 1)], 2)" by code_simp
  have cz: "count_all_pairs ?z 3 = Inr ([(0, 0), (1, 0), (2, 0)], 0)" by code_simp
  have "get_valid_views_stats ?m 3 True
      = Inr (map (\<lambda>(k, v). (k, v / of_int 2)) [(0, 0), (1, 1), (2, 1)])"
    using rate_division_guarded[OF sm wm, of 3] cm by auto
  then have rm: "get_valid_views_stats ?m 3 True = Inr [(0, 0), (1, 1 / 2), (2, 1 / 2)]"
    by simp
  have rz: "get_valid_views_stats ?z 3 True = Inr [(0, 0), (1, 0), (2, 0)]"
    using rate_division_guarded[OF sz wz, of 3] cz by auto
  show ?thesis using sm wm cm rm sz wz cz rz by simp
qed

text \<open>
  C5. For a mask of three axes (the last one not empty, so that the slice
  \<^verbatim>\<open>points_mask[:, point_index, 0]\<close> exists) and a point whose slice holds no NaN,
  \<^verbatim>\<open>n_valid\<close> is the number of entries of the slice equal to \<^verbatim>\<open>1.0\<close>; the loop adds one
  to bucket \<^verbatim>\<open>n_valid\<close> if and only if \<^verbatim>\<open>n_valid < concerned_n_view\<close>, and leaves
  \<^verbatim>\<open>total_pairs\<close> as it is in both cases. So a raw bucket \<open>k\<close> is the number of points
  free of NaN with exactly \<open>k\<close> valid views. For the mask of shape \<open>[3, 4, 1]\<close> that is
  all ones but for \<open>[1, 0, 1]\<close> at point 2, and \<^verbatim>\<open>concerned_n_view = 3\<close>, the raw buckets
  0, 1, 2 are 0, 0, 1.
\<close>

theorem valid_view_count_buckets:
  assumes "shape m = [nv, np, w]" and "0 < w" and "wf_ndarray m"
  shows "(\<forall>p d t todo. p < np \<and> \<not> hard_excluded m p \<and> map fst d = [0..<nat c] \<longrightarrow>
            count_pairs m (p # todo) (d, t)
              = count_pairs m todo
                  (if int (n_valid m p) < c then increment d (n_valid m p) else d, t))
       \<and> get_valid_views_stats m c False
           = Inr (map (\<lambda>k. (k, of_nat (length
                 (filter (\<lambda>p. \<not> hard_excluded m p \<and> n_valid m p = k) [0..<np]))))
               [0..<nat c])
       \<and> get_valid_views_stats
            \<lparr>shape = [3, 4, 1],
             dtype = Floating,
             data = [Fin 1, Fin 1, Fin 1, Fin 1,
                     Fin 1, Fin 1, Fin 0, Fin 1,
                     Fin 1, Fin 1, Fin 1, Fin 1]\<rparr> 3 False
           = Inr [(0, 0), (1, 0), (2, 1)]"
proof -
  have step: "count_pairs m (p # todo) (d, t)
      = count_pairs m todo (if int (n_valid m p) < c then increment d (n_valid m p) else d, t)"
    if "p < np" and "\<not> hard_excluded m p" and "map fst d = [0..<nat c]" for p d t todo
  proof -
    have "filter isnan (point_slice m p) = []"
      using that(2) by (auto simp: hard_excluded_def list_ex_iff filter_empty_conv)
    moreover have "count_valid \<lparr>shape = [nv], dtype = dtype m, data = point_slice m p\<rparr> = Inr (n_valid m p)"
      by (simp add: count_valid_def n_valid_def float_eq_iff)
    ultimately show ?thesis
      using pair_data_slice[OF assms that(1)] has_key_range[OF that(3)] by simp
  qed
  have raw: "get_valid_views_stats m c False
           = Inr (map (\<lambda>k. (k, of_nat (length
                 (filter (\<lambda>p. \<not> hard_excluded m p \<and> n_valid m p = k) [0..<np]))))
               [0..<nat c])"
    using count_all_pairs_slices[OF assms, of c]
    by (simp add: get_valid_views_stats_def bucket_count_def)
  have ex: "get_valid_views_stats
            \<lparr>shape = [3, 4, 1],
             dtype = Floating,
             data = [Fin 1, Fin 1, Fin 1, Fin 1,
                     Fin 1, Fin 1, Fin 0, Fin 1,
                     Fin 1, Fin 1, Fin 1, Fin 1]\<rparr> 3 False
           = Inr [(0, 0), (1, 0), (2, 1)]"
    by code_simp
  show ?thesis using step raw ex by blast
qed

theorem valid_view_count_buckets_witness:
  "shape \<lparr>shape = [3, 4, 1],
          dtype = Floating,
          data = [Fin 1, Fin 1, Fin 1, Fin 1,
                  Fin 1, Fin 1, Fin 0, Fin 1,
                  Fin 1, Fin 1, Fin 1, Fin 1]\<rparr> = [3, 4, 1]
   \<and> wf_ndarray \<lparr>shape = [3, 4, 1],
          dtype = Floating,
          data = [Fin 1, Fin 1, Fin 1, Fin 1,
                  Fin 1, Fin 1, Fin 0, Fin 1,
                  Fin 1, Fin 1, Fin 1, Fin 1]\<rparr>
   \<and> \<not> hard_excluded \<lparr>shape = [3, 4, 1],
          dtype = Floating,
          data = [Fin 1, Fin 1, Fin 1, Fin 1,
                  Fin 1, Fin 1, Fin 0, Fin 1,
                  Fin 1, Fin 1, Fin 1, Fin 1]\<rparr> 2
   \<and> n_valid \<lparr>shape = [3, 4, 1],
          dtype = Floating,
          data = [Fin 1, Fin 1, Fin 1, Fin 1,
                  Fin 1, Fin 1, Fin 0, Fin 1,
                  Fin 1, Fin 1, Fin 1, Fin 1]\<rparr> 2 = 2
   \<and> count_pairs \<lparr>shape = [3, 4, 1],
          dtype = Floating,
          data = [Fin 1, Fin 1, Fin 1, Fin 1,
                  Fin 1, Fin 1, Fin 0, Fin 1,
                  Fin 1, Fin 1, Fin 1, Fin 1]\<rparr> [2] ([(0, 0), (1, 0), (2, 0)], 4)
       = Inr ([(0, 0), (1, 0), (2, 1)], 4)
   \<and> count_pairs \<lparr>shape = [3, 4, 1],
          dtype = Floating,
          data = [Fin 1, Fin 1, Fin 1, Fin 1,
                  Fin 1, Fin 1, Fin 0, Fin 1,
                  Fin 1, Fin 1, Fin 1, Fin 1]\<rparr> [3] ([(0, 0), (1, 0), (2, 0)], 4)
       = Inr ([(0, 0), (1, 0), (2, 0)], 4)"
proof -
  let ?m = "\<lparr>shape = [3, 4, 1],
          dtype = Floating,
          data = [Fin 1, Fin 1, Fin 1, Fin 1,
                  Fin 1, Fin 1, Fin 0, Fin 1,
                  Fin 1, Fin 1, Fin 1, Fin 1]\<rparr>"
  let ?d = "[(0, 0), (1, 0), (2, 0)] :: stats_dict"
  have s: "shape ?m = [3, 4, 1]" by simp
  have w: "wf_ndarray ?m" by (simp add: wf_ndarray_def)
  have e2: "\<not> hard_excluded ?m 2" and e3: "\<not> hard_excluded ?m 3" by code_simp+
  have n2: "n_valid ?m 2 = 2" and n3: "n_valid ?m 3 = 3" by code_simp+
  have k: "map fst ?d = [0..<nat 3]" by code_simp
  have step: "\<And>p t todo. p < 4 \<and> \<not> hard_excluded ?m p \<and> map fst ?d = [0..<nat 3] \<longrightarrow>
            count_pairs ?m (p # todo) (?d, t)
              = count_pairs ?m todo
                  (if int (n_valid ?m p) < 3 then increment ?d (n_valid ?m p) else ?d, t)"
    using valid_view_count_buckets[OF s _ w, of 3] by simp
  have "count_pairs ?m [2] (?d, 4) = Inr (increment ?d 2, 4)"
    using step[of 2 "[]" 4] e2 k n2 by simp
  then have c2: "count_pairs ?m [2] (?d, 4) = Inr ([(0, 0), (1, 0), (2, 1)], 4)"
    by (simp add: increment_def)
  have c3: "count_pairs ?m [3] (?d, 4) = Inr (?d, 4)"
    using step[of 3 "[]" 4] e3 k n3 by simp
  show ?thesis using s w e2 n2 c2 c3 by simp
qed

text \<open>
  C6. For a mask of shape \<open>[n_view, n_point, 1]\<close> without NaN, the raw buckets
  \<open>0 .. concerned_n_view - 1\<close> and the number of points with
  \<^verbatim>\<open>n_valid >= concerned_n_view\<close> add up to \<open>n_point\<close>; to 5 for a mask of shape
  \<open>[3, 5, 1]\<close>.
\<close>

theorem histogram_sums_to_points:
  assumes "shape m = [nv, np, 1]" and "wf_ndarray m"
    and "\<forall>x\<in>set (data m). \<not> isnan x"
  shows "\<exists>d. get_valid_views_stats m c False = Inr d
       \<and> map fst d = [0..<nat c]
       \<and> sum_list (map snd d)
           + of_nat (length (filter (\<lambda>p. c \<le> int (n_valid m p)) [0..<np])) = of_nat np"
proof -
  let ?d = "map (\<lambda>k. (k, of_nat (bucket_count m [0..<np] k) :: rat)) [0..<nat c]"
  have res: "get_valid_views_stats m c False = Inr ?d"
    using count_all_pairs_rank3[OF assms(1,2)] by (simp add: get_valid_views_stats_def)
  have keys: "map fst ?d = [0..<nat c]"
    by (simp add: comp_def)
  have bc: "bucket_count m [0..<np] k = length (filter (\<lambda>p. n_valid m p = k) [0..<np])" for k
    unfolding bucket_count_def
    by (rule arg_cong[where f = length], rule filter_cong)
       (use no_nan_not_excluded[OF assms(1,2) _ assms(3)] in auto)
  have "sum_list (map snd ?d) = of_nat (\<Sum>k\<leftarrow>[0..<nat c]. bucket_count m [0..<np] k)"
    by (simp add: comp_def of_nat_sum_list_map)
  also have "(\<Sum>k\<leftarrow>[0..<nat c]. bucket_count m [0..<np] k)
      = length (filter (\<lambda>p. n_valid m p < nat c) [0..<np])"
    by (simp add: bc sum_buckets)
  finally have s: "sum_list (map snd ?d)
      = of_nat (length (filter (\<lambda>p. n_valid m p < nat c) [0..<np]))" .
  have "(\<lambda>p. c \<le> int (n_valid m p)) = (\<lambda>p. \<not> n_valid m p < nat c)"
    by (rule ext) linarith
  then have "length (filter (\<lambda>p. n_valid m p < nat c) [0..<np])
      + length (filter (\<lambda>p. c \<le> int (n_valid m p)) [0..<np]) = np"
    using split_at_threshold[of "n_valid m" "nat c" "[0..<np]"] by simp
  then have "sum_list (map snd ?d)
      + of_nat (length (filter (\<lambda>p. c \<le> int (n_valid m p)) [0..<np])) = (of_nat np :: rat)"
    unfolding s by (metis of_nat_add)
  then show ?thesis using res keys by blast
qed

theorem histogram_sums_to_points_witness:
  "shape \<lparr>shape = [3, 5, 1],
          dtype = Floating,
          data = [Fin 1, Fin 1, Fin 1, Fin 0, Fin 0,
                  Fin 1, Fin 1, Fin 0, Fin 0, Fin 1,
                  Fin 1, Fin 0, Fin 0, Fin 0, Fin 1]\<rparr> = [3, 5, 1]
   \<and> wf_ndarray \<lparr>shape = [3, 5, 1],
          dtype = Floating,
          data = [Fin 1, Fin 1, Fin 1, Fin 0, Fin 0,
                  Fin 1, Fin 1, Fin 0, Fin 0, Fin 1,
                  Fin 1, Fin 0, Fin 0, Fin 0, Fin 1]\<rparr>
   \<and> get_valid_views_stats \<lparr>shape = [3, 5, 1],
          dtype = Floating,
          data = [Fin 1, Fin 1, Fin 1, Fin 0, Fin 0,
                  Fin 1, Fin 1, Fin 0, Fin 0, Fin 1,
                  Fin 1, Fin 0, Fin 0, Fin 0, Fin 1]\<rparr> 3 False
       = Inr [(0, 1), (1, 1), (2, 2)]
   \<and> sum_list (map snd [(0 :: nat, 1 :: rat), (1, 1), (2, 2)])
       + of_nat (length (filter (\<lambda>p. 3 \<le> int (n_valid \<lparr>shape = [3, 5, 1],
          dtype = Floating,
          data = [Fin 1, Fin 1, Fin 1, Fin 0, Fin 0,
                  Fin 1, Fin 1, Fin 0, Fin 0, Fin 1,
                  Fin 1, Fin 0, Fin 0, Fin 0, Fin 1]\<rparr> p)) [0..<5])) = 5"
proof -
  let ?m = "\<lparr>shape = [3, 5, 1],
          dtype = Floating,
          data = [Fin 1, Fin 1, Fin 1, Fin 0, Fin 0,
                  Fin 1, Fin 1, Fin 0, Fin 0, Fin 1,
                  Fin 1, Fin 0, Fin 0, Fin 0, Fin 1]\<rparr>"
  have s: "shape ?m = [3, 5, 1]" by simp
  have w: "wf_ndarray ?m" by (simp add: wf_ndarray_def)
  have n: "\<forall>x\<in>set (data ?m). \<not> isnan x" by simp
  have r: "get_valid_views_stats ?m 3 False = Inr [(0, 1), (1, 1), (2, 2)]" by code_simp
  from histogram_sums_to_points[OF s w n, of 3] r
  have "sum_list (map snd [(0 :: nat, 1 :: rat), (1, 1), (2, 2)])
       + of_nat (length (filter (\<lambda>p. 3 \<le> int (n_valid ?m p)) [0..<5])) = of_nat 5"
    by auto
  then show ?thesis using s w r by simp
qed

section \<open>The checks of prepare_triangulate_input\<close>

lemma hd_mask_shape:
  assumes "(sh :: nat list) \<noteq> []"
  shows "hd sh = hd (butlast sh @ [min 1 (last sh)]) \<longleftrightarrow> \<not> (length sh = 1 \<and> 2 \<le> hd sh)"
proof (cases sh)
  case Nil
  then show ?thesis using assms by simp
next
  case (Cons n rest)
  then show ?thesis by (cases rest) auto
qed

lemma shape0_hd: "sh \<noteq> [] \<Longrightarrow> shape a = sh \<Longrightarrow> shape0 a = Inr (hd sh)"
  by (cases sh) (simp_all add: shape0_def)

lemma check_shapes_eq:
  assumes "shape p \<noteq> []" and "shape b \<noteq> []"
  shows "check_shapes cam p b =
     (if \<not> (hd (shape p) = hd (shape b) \<and> int (hd (shape p)) = cam)
      then Inl ViewCountMismatch
      else if last (shape p) < 2 then Inl CoordWidthTooSmall
      else if butlast (shape p) \<noteq> butlast (shape b) \<or> last (shape b) \<noteq> 1
      then Inl MaskShapeMismatch
      else Inr (p, b))"
  using assms shape0_hd[of "shape p" p] shape0_hd[of "shape b" b]
  by (simp add: check_shapes_def)

lemma ones_like_first_coord_eq:
  "shape p \<noteq> [] \<Longrightarrow>
   ones_like_first_coord p = Inr (np_ones (dtype p) (butlast (shape p) @ [min 1 (last (shape p))]))"
  by (cases "shape p") (simp_all add: ones_like_first_coord_def)

lemma prepare_no_mask:
  assumes "coerce ''points'' points = Inr p" and "shape p \<noteq> []"
  shows "prepare_triangulate_input cam points PyNone =
     (if (length (shape p) = 1 \<and> 2 \<le> hd (shape p)) \<or> int (hd (shape p)) \<noteq> cam
      then Inl ViewCountMismatch
      else if last (shape p) < 2 then Inl CoordWidthTooSmall
      else Inr (p, np_ones (dtype p) (butlast (shape p) @ [1])))"
proof -
  let ?m = "np_ones (dtype p) (butlast (shape p) @ [min 1 (last (shape p))])"
  have m: "shape ?m = butlast (shape p) @ [min 1 (last (shape p))]"
    by (simp add: np_ones_def)
  have "prepare_triangulate_input cam points PyNone = check_shapes cam p ?m"
    using assms by (simp add: prepare_triangulate_input_def ones_like_first_coord_eq)
  also have "\<dots> =
     (if \<not> (hd (shape p) = hd (shape ?m) \<and> int (hd (shape p)) = cam)
      then Inl ViewCountMismatch
      else if last (shape p) < 2 then Inl CoordWidthTooSmall
      else if butlast (shape p) \<noteq> butlast (shape ?m) \<or> last (shape ?m) \<noteq> 1
      then Inl MaskShapeMismatch
      else Inr (p, ?m))"
    by (rule check_shapes_eq) (use assms(2) m in simp_all)
  also have "\<dots> =
     (if (length (shape p) = 1 \<and> 2 \<le> hd (shape p)) \<or> int (hd (shape p)) \<noteq> cam
      then Inl ViewCountMismatch
      else if last (shape p) < 2 then Inl CoordWidthTooSmall
      else Inr (p, np_ones (dtype p) (butlast (shape p) @ [1])))"
    unfolding m using hd_mask_shape[OF assms(2)] by (auto simp: min_def)
  finally show ?thesis .
qed

lemma prepare_with_mask:
  assumes "coerce ''points'' points = Inr p" and "shape p \<noteq> []"
    and "coerce ''points_mask'' points_mask = Inr b" and "shape b \<noteq> []"
  shows "prepare_triangulate_input cam points points_mask =
     (if \<not> (hd (shape p) = hd (shape b) \<and> int (hd (shape p)) = cam)
      then Inl ViewCountMismatch
      else if last (shape p) < 2 then Inl CoordWidthTooSmall
      else if butlast (shape p) \<noteq> butlast (shape b) \<or> last (shape b) \<noteq> 1
      then Inl MaskShapeMismatch
      else Inr (p, b))"
proof -
  have "points_mask \<noteq> PyNone" using assms(3) by auto
  then have "prepare_triangulate_input cam points points_mask = check_shapes cam p b"
    using assms(1,3) by (simp add: prepare_triangulate_input_def)
  then show ?thesis using check_shapes_eq[OF assms(2,4)] by simp
qed

section \<open>The steps of parse_keypoints_mask\<close>

lemma where_zero_lt:
  assumes "shape km = m0 # rest" and "wf_ndarray km"
  shows "list_all (\<lambda>i. i < m0) (where_zero_axis0 km)"
proof -
  have len: "length (data km) = m0 * prod_list rest"
    using assms by (simp add: wf_ndarray_def)
  have "j div prod_list rest < m0" if "j < length (data km)" for j
  proof -
    have "0 < prod_list rest" using that len by (cases "prod_list rest = 0") simp_all
    then show ?thesis using that len by (simp add: less_mult_imp_div_less)
  qed
  then show ?thesis
    using assms(1) by (auto simp: where_zero_axis0_def list_all_iff)
qed

lemma where_zero_vector:
  assumes "shape km = [n]" and "wf_ndarray km"
  shows "set (where_zero_axis0 km) = {j. j < n \<and> float_eq (data km ! j) 0}"
  using assms by (auto simp: where_zero_axis0_def wf_ndarray_def)

lemma shape_m2_append: "shape_m2 (pre @ [n, w]) = Inr n"
  by (simp add: shape_m2_def butlast_append)

lemma mark_invalid_eq:
  assumes "shape tm = pre @ [n, 1]" and "0 < n"
    and "list_all (\<lambda>i. i < n) (where_zero_axis0 km)" and "dtype tm = Floating"
  shows "mark_invalid tm km =
     Inr (tm\<lparr>data := map (\<lambda>j. if j mod n \<in> set (where_zero_axis0 km) then NaN
                               else data tm ! j) [0..<length (data tm)]\<rparr>)"
proof -
  have ri: "reshape_infer tm n 1 = Inr (tm\<lparr>shape := [prod_list pre, n, 1]\<rparr>)"
    using assms(1,2) by (simp add: reshape_infer_def)
  have sn: "set_nan_axis1 (tm\<lparr>shape := [prod_list pre, n, 1]\<rparr>) (where_zero_axis0 km) =
      Inr (tm\<lparr>shape := [prod_list pre, n, 1],
              data := map (\<lambda>j. if j mod n \<in> set (where_zero_axis0 km) then NaN
                               else data tm ! j) [0..<length (data tm)]\<rparr>)"
    using assms(3,4) by (simp add: set_nan_axis1_def)
  show ?thesis
    using assms(1) ri sn
    by (simp add: mark_invalid_def Let_def shape_m2_append reshape_def)
qed

lemma mark_invalid_empty_axis:
  assumes "shape tm = pre @ [0, w]"
  shows "mark_invalid tm km = Inl NumpyValueError"
  using assms by (simp add: mark_invalid_def Let_def shape_m2_append reshape_infer_def)

lemma rank2_split:
  assumes "2 \<le> length (sh :: nat list)"
  shows "sh = butlast (butlast sh) @ [last (butlast sh), last sh]"
proof -
  obtain xs x where sh: "sh = xs @ [x]"
    using assms by (cases sh rule: rev_cases) auto
  then obtain ys y where xs: "xs = ys @ [y]"
    using assms by (cases xs rule: rev_cases) auto
  show ?thesis by (simp add: sh xs butlast_append)
qed

lemma parse_ndarray:
  assumes "shape k \<noteq> []"
  shows "parse_keypoints_mask (NdArray k) keypoints_mask =
     (if length (shape k) = 1 \<and> 2 \<le> hd (shape k) then Inl ViewCountMismatch
      else if last (shape k) < 2 then Inl CoordWidthTooSmall
      else
        (case with_shape keypoints_mask of
           Inl e \<Rightarrow> Inl e
         | Inr km \<Rightarrow>
             (case shape0 km of
                Inl e \<Rightarrow> Inl e
              | Inr n_mask \<Rightarrow>
                  if last (butlast (shape k)) \<noteq> n_mask then Inl KeypointCountMismatch
                  else mark_invalid (np_ones (dtype k) (butlast (shape k) @ [1])) km)))"
proof -
  have s0: "shape0 k = Inr (hd (shape k))"
    using assms by (simp add: shape0_hd)
  have prep: "prepare_triangulate_input (int (hd (shape k))) (NdArray k) PyNone =
     (if length (shape k) = 1 \<and> 2 \<le> hd (shape k) then Inl ViewCountMismatch
      else if last (shape k) < 2 then Inl CoordWidthTooSmall
      else Inr (k, np_ones (dtype k) (butlast (shape k) @ [1])))"
    using prepare_no_mask[where points = "NdArray k" and p = k and cam = "int (hd (shape k))"] assms
    by simp
  show ?thesis
  proof (cases "(length (shape k) = 1 \<and> 2 \<le> hd (shape k)) \<or> last (shape k) < 2")
    case True
    then show ?thesis
      using s0 prep by (auto simp: parse_keypoints_mask_def)
  next
    case False
    have "length (shape k) \<noteq> 1"
    proof
      assume "length (shape k) = 1"
      then have "last (shape k) = hd (shape k)" by (cases "shape k") simp_all
      then show False using False \<open>length (shape k) = 1\<close> by linarith
    qed
    then have "2 \<le> length (shape k)"
      using assms by (cases "shape k") (auto simp: Suc_le_eq)
    then have m2: "shape_m2 (shape k) = Inr (last (butlast (shape k)))"
      by (simp add: shape_m2_def)
    have c1: "\<not> (length (shape k) = 1 \<and> 2 \<le> hd (shape k))" and c2: "\<not> last (shape k) < 2"
      using False by auto
    have prep': "prepare_triangulate_input (int (hd (shape k))) (NdArray k) PyNone
        = Inr (k, np_ones (dtype k) (butlast (shape k) @ [1]))"
      unfolding prep using c1 c2 by (simp only: if_False)
    show ?thesis
      unfolding parse_keypoints_mask_def
      by (simp only: with_shape.simps s0 prep' m2 sum.case prod.case c1 c2 if_False)
  qed
qed

lemma valid_index_split:
  assumes "valid_index (pre @ [n, w]) idx"
  obtains ipre kk z where "idx = ipre @ [kk, z]" and "length ipre = length pre"
    and "valid_index pre ipre" and "kk < n" and "z < w"
proof -
  from assms obtain us vs where idx: "idx = us @ vs" and len: "length us = length pre"
    and us: "list_all2 (\<lambda>i n. i < n) us pre" and vs: "list_all2 (\<lambda>i n. i < n) vs [n, w]"
    unfolding valid_index_def list_all2_append2 by blast
  from vs obtain kk z where "vs = [kk, z]" and "kk < n" and "z < w"
    by (auto simp: list_all2_Cons2)
  then show ?thesis using that idx len us by (simp add: valid_index_def)
qed

lemma rank_ge2:
  assumes "shape k \<noteq> []" and "\<not> (length (shape k) = 1 \<and> 2 \<le> hd (shape k))"
    and "\<not> last (shape k) < 2"
  shows "2 \<le> length (shape k)"
proof -
  have "length (shape k) \<noteq> 1"
  proof
    assume one: "length (shape k) = 1"
    then have "last (shape k) = hd (shape k)" by (cases "shape k") simp_all
    then show False using assms(2,3) one by linarith
  qed
  then show ?thesis using assms(1) by (cases "shape k") (auto simp: Suc_le_eq)
qed

lemma prepare_keypoints_success:
  assumes "prepare_triangulate_input (int (hd (shape k))) (NdArray k) PyNone = Inr (kp, tm)"
  shows "2 \<le> length (shape k) \<and> 2 \<le> last (shape k)"
proof -
  have ne: "shape k \<noteq> []"
    using assms
    by (auto simp: prepare_triangulate_input_def ones_like_first_coord_def
        split: sum.splits list.splits)
  have "\<not> (length (shape k) = 1 \<and> 2 \<le> hd (shape k))" and "\<not> last (shape k) < 2"
    using assms prepare_no_mask[where points = "NdArray k" and p = k
        and cam = "int (hd (shape k))"] ne
    by (auto split: if_splits)
  then show ?thesis using rank_ge2[OF ne] by simp
qed

lemma parse_ndarray_ndarray:
  assumes "2 \<le> length (shape k)" and "2 \<le> last (shape k)" and "shape km = m0 # rest"
  shows "parse_keypoints_mask (NdArray k) (NdArray km) =
     (if last (butlast (shape k)) \<noteq> m0 then Inl KeypointCountMismatch
      else mark_invalid (np_ones (dtype k) (butlast (butlast (shape k)) @ [last (butlast (shape k)), 1])) km)"
proof -
  have ne: "shape k \<noteq> []" using assms(1) by auto
  have c: "\<not> (length (shape k) = 1 \<and> 2 \<le> hd (shape k))" "\<not> last (shape k) < 2"
    using assms(1,2) by auto
  have s0: "shape0 km = Inr m0" using assms(3) by (simp add: shape0_def)
  have "butlast (shape k) \<noteq> []"
  proof
    assume e: "butlast (shape k) = []"
    have "length (butlast (shape k)) = length (shape k) - 1" by (rule length_butlast)
    with e assms(1) show False by simp
  qed
  then have b: "butlast (shape k) @ [1] = butlast (butlast (shape k)) @ [last (butlast (shape k)), 1]"
    by (metis append.assoc append_Cons append_Nil append_butlast_last_id)
  show ?thesis
    unfolding parse_ndarray[OF ne] b
    by (simp only: c if_False with_shape.simps sum.case s0)
qed

lemma mark_invalid_errors:
  "mark_invalid tm km = Inl e \<Longrightarrow> e = IndexError \<or> e = NumpyValueError"
  by (auto simp: mark_invalid_def Let_def shape_m2_def reshape_infer_def set_nan_axis1_def
      reshape_def split: sum.splits if_splits list.splits)

lemma parse_not_ndarray:
  "\<forall>k. keypoints \<noteq> NdArray k \<Longrightarrow> parse_keypoints_mask keypoints keypoints_mask = Inl AttributeError"
  by (cases keypoints) (simp_all add: parse_keypoints_mask_def)

lemma parse_scalar_array:
  "shape k = [] \<Longrightarrow> parse_keypoints_mask (NdArray k) keypoints_mask = Inl IndexError"
  by (simp add: parse_keypoints_mask_def shape0_def)

section \<open>Claims on prepare_triangulate_input\<close>

text \<open>
  C4. Once both arguments are arrays with an axis 0 (a list or tuple converted, the
  mask synthesized when it is \<^verbatim>\<open>None\<close>), the shape checks run in a fixed order and the
  first one violated decides: ViewCountMismatch unless
  \<^verbatim>\<open>points.shape[0] == points_mask.shape[0] == camera_number\<close>, then CoordWidthTooSmall
  unless \<^verbatim>\<open>points.shape[-1] >= 2\<close>, then MaskShapeMismatch unless the leading shapes
  agree and the mask's last axis has width 1. With \<^verbatim>\<open>camera_number = 3\<close> and points of
  leading length 2 the failure is ViewCountMismatch; with matching view counts and a
  last axis of width 1 it is CoordWidthTooSmall.
\<close>

theorem shape_checks_in_order:
  assumes "coerce ''points'' points = Inr p" and "shape p \<noteq> []"
  shows "(\<forall>b. coerce ''points_mask'' points_mask = Inr b \<and> shape b \<noteq> [] \<longrightarrow>
            prepare_triangulate_input cam points points_mask =
              (if \<not> (hd (shape p) = hd (shape b) \<and> int (hd (shape p)) = cam)
               then Inl ViewCountMismatch
               else if last (shape p) < 2 then Inl CoordWidthTooSmall
               else if butlast (shape p) \<noteq> butlast (shape b) \<or> last (shape b) \<noteq> 1
               then Inl MaskShapeMismatch
               else Inr (p, b)))
       \<and> prepare_triangulate_input cam points PyNone =
              (if (length (shape p) = 1 \<and> 2 \<le> hd (shape p)) \<or> int (hd (shape p)) \<noteq> cam
               then Inl ViewCountMismatch
               else if last (shape p) < 2 then Inl CoordWidthTooSmall
               else Inr (p, \<lparr>shape = butlast (shape p) @ [1], dtype = dtype p,
                             data = replicate (prod_list (butlast (shape p))) (Fin 1)\<rparr>))
       \<and> (hd (shape p) = 2 \<longrightarrow>
            prepare_triangulate_input 3 points PyNone = Inl ViewCountMismatch
            \<and> (\<forall>b. coerce ''points_mask'' points_mask = Inr b \<and> shape b \<noteq> [] \<longrightarrow>
                 prepare_triangulate_input 3 points points_mask = Inl ViewCountMismatch))
       \<and> (last (shape p) = 1 \<and> int (hd (shape p)) = cam \<longrightarrow>
            prepare_triangulate_input cam points PyNone = Inl CoordWidthTooSmall
            \<and> (\<forall>b. coerce ''points_mask'' points_mask = Inr b \<and> shape b \<noteq> []
                   \<and> hd (shape b) = hd (shape p) \<longrightarrow>
                 prepare_triangulate_input cam points points_mask = Inl CoordWidthTooSmall))"
proof -
  note nm = prepare_no_mask[OF assms]
  note wm = prepare_with_mask[OF assms]
  have one: "length (shape p) = 1 \<Longrightarrow> last (shape p) = hd (shape p)"
    by (cases "shape p") simp_all
  show ?thesis
  proof (intro conjI allI impI)
    fix b assume "coerce ''points_mask'' points_mask = Inr b \<and> shape b \<noteq> []"
    then show "prepare_triangulate_input cam points points_mask =
              (if \<not> (hd (shape p) = hd (shape b) \<and> int (hd (shape p)) = cam)
               then Inl ViewCountMismatch
               else if last (shape p) < 2 then Inl CoordWidthTooSmall
               else if butlast (shape p) \<noteq> butlast (shape b) \<or> last (shape b) \<noteq> 1
               then Inl MaskShapeMismatch
               else Inr (p, b))"
      using wm by blast
  next
    show "prepare_triangulate_input cam points PyNone =
              (if (length (shape p) = 1 \<and> 2 \<le> hd (shape p)) \<or> int (hd (shape p)) \<noteq> cam
               then Inl ViewCountMismatch
               else if last (shape p) < 2 then Inl CoordWidthTooSmall
               else Inr (p, \<lparr>shape = butlast (shape p) @ [1], dtype = dtype p,
                             data = replicate (prod_list (butlast (shape p))) (Fin 1)\<rparr>))"
      using nm by (simp add: np_ones_def)
  next
    assume "hd (shape p) = 2"
    then show "prepare_triangulate_input 3 points PyNone = Inl ViewCountMismatch"
      using nm[where cam = 3] by simp
  next
    fix b assume "hd (shape p) = 2"
      and "coerce ''points_mask'' points_mask = Inr b \<and> shape b \<noteq> []"
    then show "prepare_triangulate_input 3 points points_mask = Inl ViewCountMismatch"
      using wm[where b = b and cam = 3] by simp
  next
    assume "last (shape p) = 1 \<and> int (hd (shape p)) = cam"
    then show "prepare_triangulate_input cam points PyNone = Inl CoordWidthTooSmall"
      using nm[where cam = cam] one by auto
  next
    fix b assume "last (shape p) = 1 \<and> int (hd (shape p)) = cam"
      and "coerce ''points_mask'' points_mask = Inr b \<and> shape b \<noteq> []
                   \<and> hd (shape b) = hd (shape p)"
    then show "prepare_triangulate_input cam points points_mask = Inl CoordWidthTooSmall"
      using wm[where b = b and cam = cam] by simp
  qed
qed

theorem shape_checks_in_order_witness:
  "coerce ''points'' (NdArray \<lparr>shape = [2, 4, 2], dtype = Floating, data = replicate 16 (Fin 0)\<rparr>)
     = Inr \<lparr>shape = [2, 4, 2], dtype = Floating, data = replicate 16 (Fin 0)\<rparr>
   \<and> shape \<lparr>shape = [2, 4, 2], dtype = Floating, data = replicate 16 (Fin 0)\<rparr> \<noteq> []
   \<and> hd (shape \<lparr>shape = [2, 4, 2], dtype = Floating, data = replicate 16 (Fin 0)\<rparr>) = 2
   \<and> prepare_triangulate_input 3
        (NdArray \<lparr>shape = [2, 4, 2], dtype = Floating, data = replicate 16 (Fin 0)\<rparr>) PyNone
       = Inl ViewCountMismatch
   \<and> prepare_triangulate_input 3
        (NdArray \<lparr>shape = [2, 4, 2], dtype = Floating, data = replicate 16 (Fin 0)\<rparr>)
        (NdArray \<lparr>shape = [2, 4, 1], dtype = Floating, data = replicate 8 (Fin 1)\<rparr>)
       = Inl ViewCountMismatch
   \<and> prepare_triangulate_input 2
        (NdArray \<lparr>shape = [2, 4, 2], dtype = Floating, data = replicate 16 (Fin 0)\<rparr>)
        (NdArray \<lparr>shape = [2, 3, 1], dtype = Floating, data = replicate 6 (Fin 1)\<rparr>)
       = Inl MaskShapeMismatch
   \<and> coerce ''points'' (NdArray \<lparr>shape = [3, 4, 1], dtype = Floating, data = replicate 12 (Fin 0)\<rparr>)
     = Inr \<lparr>shape = [3, 4, 1], dtype = Floating, data = replicate 12 (Fin 0)\<rparr>
   \<and> last (shape \<lparr>shape = [3, 4, 1], dtype = Floating, data = replicate 12 (Fin 0)\<rparr>) = 1
   \<and> prepare_triangulate_input 3
        (NdArray \<lparr>shape = [3, 4, 1], dtype = Floating, data = replicate 12 (Fin 0)\<rparr>) PyNone
       = Inl CoordWidthTooSmall"
proof -
  let ?p = "\<lparr>shape = [2, 4, 2], dtype = Floating, data = replicate 16 (Fin 0)\<rparr>"
  let ?q = "\<lparr>shape = [3, 4, 1], dtype = Floating, data = replicate 12 (Fin 0)\<rparr>"
  let ?b = "\<lparr>shape = [2, 4, 1], dtype = Floating, data = replicate 8 (Fin 1)\<rparr>"
  let ?c = "\<lparr>shape = [2, 3, 1], dtype = Floating, data = replicate 6 (Fin 1)\<rparr>"
  have cp: "coerce ''points'' (NdArray ?p) = Inr ?p"
    and cq: "coerce ''points'' (NdArray ?q) = Inr ?q" by simp_all
  have np: "shape ?p \<noteq> []" and nq: "shape ?q \<noteq> []" by simp_all
  have cb: "coerce ''points_mask'' (NdArray ?b) = Inr ?b \<and> shape ?b \<noteq> []"
    and cc: "coerce ''points_mask'' (NdArray ?c) = Inr ?c \<and> shape ?c \<noteq> []" by simp_all
  have v1: "prepare_triangulate_input 3 (NdArray ?p) PyNone = Inl ViewCountMismatch"
    using shape_checks_in_order[OF cp np, of PyNone 3] by simp
  have v2: "prepare_triangulate_input 3 (NdArray ?p) (NdArray ?b) = Inl ViewCountMismatch"
    using shape_checks_in_order[OF cp np, of "NdArray ?b" 3] cb by simp
  have v3: "prepare_triangulate_input 2 (NdArray ?p) (NdArray ?c) = Inl MaskShapeMismatch"
    using shape_checks_in_order[OF cp np, of "NdArray ?c" 2] cc by simp
  have v4: "prepare_triangulate_input 3 (NdArray ?q) PyNone = Inl CoordWidthTooSmall"
    using shape_checks_in_order[OF cq nq, of PyNone 3] by simp
  show ?thesis using cp np v1 v2 v3 cq v4 by simp
qed

text \<open>
  C7. When \<^verbatim>\<open>prepare_triangulate_input\<close> succeeds it returns the points as passed (an
  ndarray unchanged, a list or tuple as converted) and the mask as passed; when
  \<^verbatim>\<open>points_mask\<close> is \<^verbatim>\<open>None\<close> the mask returned has the shape
  \<^verbatim>\<open>points.shape[:-1] + [1]\<close> and holds \<^verbatim>\<open>1.0\<close> everywhere.
\<close>

theorem prepare_returns_inputs:
  assumes "prepare_triangulate_input cam points points_mask = Inr (p, m)"
  shows "coerce ''points'' points = Inr p
       \<and> (\<forall>a. points = NdArray a \<longrightarrow> p = a)
       \<and> (points_mask \<noteq> PyNone \<longrightarrow> coerce ''points_mask'' points_mask = Inr m)
       \<and> (\<forall>b. points_mask = NdArray b \<longrightarrow> m = b)
       \<and> (points_mask = PyNone \<longrightarrow>
            shape m = butlast (shape p) @ [1]
            \<and> data m = replicate (prod_list (shape m)) (Fin 1))"
proof -
  obtain p' where p': "coerce ''points'' points = Inr p'"
    using assms by (auto simp: prepare_triangulate_input_def split: sum.splits)
  obtain m' where m': "(if points_mask = PyNone then ones_like_first_coord p'
            else coerce ''points_mask'' points_mask) = Inr m'"
    using assms p' by (auto simp: prepare_triangulate_input_def split: sum.splits)
  have cs: "check_shapes cam p' m' = Inr (p, m)"
    using assms p' m' by (simp add: prepare_triangulate_input_def)
  then have eq: "p = p'" "m = m'"
    by (auto simp: check_shapes_def split: sum.splits if_splits)
  have ne: "shape p \<noteq> []"
    using cs eq by (auto simp: check_shapes_def shape0_def split: sum.splits if_splits list.splits)
  have none: "shape m = butlast (shape p) @ [1]
            \<and> data m = replicate (prod_list (shape m)) (Fin 1)" if "points_mask = PyNone"
  proof -
    have "prepare_triangulate_input cam points PyNone = Inr (p, m)"
      using assms that by simp
    then have "m = np_ones (dtype p) (butlast (shape p) @ [1])"
      using prepare_no_mask[where points = points and p = p and cam = cam] p' eq ne by (auto split: if_splits)
    then show ?thesis by (simp add: np_ones_def)
  qed
  show ?thesis
    using p' m' eq none by (auto split: if_splits)
qed

theorem prepare_returns_inputs_witness:
  "prepare_triangulate_input 2
     (NdArray \<lparr>shape = [2, 3, 2], dtype = Floating, data = replicate 12 (Fin 5)\<rparr>) PyNone
     = Inr (\<lparr>shape = [2, 3, 2], dtype = Floating, data = replicate 12 (Fin 5)\<rparr>,
            \<lparr>shape = [2, 3, 1], dtype = Floating, data = replicate 6 (Fin 1)\<rparr>)
   \<and> shape \<lparr>shape = [2, 3, 1], dtype = Floating, data = replicate 6 (Fin 1)\<rparr>
       = butlast (shape \<lparr>shape = [2, 3, 2], dtype = Floating, data = replicate 12 (Fin 5)\<rparr>) @ [1]
   \<and> data \<lparr>shape = [2, 3, 1], dtype = Floating, data = replicate 6 (Fin 1)\<rparr>
       = replicate (prod_list (shape \<lparr>shape = [2, 3, 1], dtype = Floating, data = replicate 6 (Fin 1)\<rparr>))
           (Fin 1)
   \<and> prepare_triangulate_input 2
        (NdArray \<lparr>shape = [2, 3, 2], dtype = Floating, data = replicate 12 (Fin 5)\<rparr>)
        (NdArray \<lparr>shape = [2, 3, 1], dtype = Floating, data = [Fin 1, NaN, Fin 1, Fin 1, NaN, Fin 1]\<rparr>)
       = Inr (\<lparr>shape = [2, 3, 2], dtype = Floating, data = replicate 12 (Fin 5)\<rparr>,
              \<lparr>shape = [2, 3, 1], dtype = Floating, data = [Fin 1, NaN, Fin 1, Fin 1, NaN, Fin 1]\<rparr>)
   \<and> coerce ''points_mask''
        (NdArray \<lparr>shape = [2, 3, 1], dtype = Floating, data = [Fin 1, NaN, Fin 1, Fin 1, NaN, Fin 1]\<rparr>)
       = Inr \<lparr>shape = [2, 3, 1], dtype = Floating, data = [Fin 1, NaN, Fin 1, Fin 1, NaN, Fin 1]\<rparr>"
proof -
  let ?k = "\<lparr>shape = [2, 3, 2], dtype = Floating, data = replicate 12 (Fin 5)\<rparr>"
  let ?o = "\<lparr>shape = [2, 3, 1], dtype = Floating, data = replicate 6 (Fin 1)\<rparr>"
  let ?m = "\<lparr>shape = [2, 3, 1], dtype = Floating, data = [Fin 1, NaN, Fin 1, Fin 1, NaN, Fin 1]\<rparr>"
  have a: "prepare_triangulate_input 2 (NdArray ?k) PyNone = Inr (?k, ?o)" by code_simp
  have b: "prepare_triangulate_input 2 (NdArray ?k) (NdArray ?m) = Inr (?k, ?m)" by code_simp
  have "shape ?o = butlast (shape ?k) @ [1]
      \<and> data ?o = replicate (prod_list (shape ?o)) (Fin 1)"
    using prepare_returns_inputs[OF a] by simp
  moreover have "coerce ''points_mask'' (NdArray ?m) = Inr ?m"
    using prepare_returns_inputs[OF b] by simp
  ultimately show ?thesis using a b by simp
qed

section \<open>Claims on parse_keypoints_mask\<close>

text \<open>
  C1. The claim as written fails where the keypoint axis is empty: the mask cannot be
  flattened with \<^verbatim>\<open>reshape(-1, 0, 1)\<close> and numpy raises. It fails for keypoints of
  an integer type too: the mask of line 138 takes their element type, and the
  assignment of NaN at line 216 raises.
\<close>

theorem empty_keypoint_axis_refused:
  "parse_keypoints_mask (NdArray \<lparr>shape = [2, 0, 2], dtype = Floating, data = []\<rparr>)
     (NdArray \<lparr>shape = [0], dtype = Floating, data = []\<rparr>) = Inl NumpyValueError
   \<and> parse_keypoints_mask
        (NdArray \<lparr>shape = [2, 3, 2], dtype = Integer, data = replicate 12 (Fin 5)\<rparr>)
        (NdArray \<lparr>shape = [3], dtype = Floating, data = [Fin 1, Fin 0, Fin 1]\<rparr>)
       = Inl NumpyValueError"
  by code_simp

text \<open>
  C1, amended. For floating-point keypoints of shape \<open>[n_view, ..., n_keypoints, d]\<close>
  with \<open>d \<ge> 2\<close> and \<open>n_keypoints \<ge> 1\<close>, and a validity vector of length
  \<open>n_keypoints\<close>, \<^verbatim>\<open>parse_keypoints_mask\<close> returns a floating-point mask of shape
  \<open>[n_view, ..., n_keypoints, 1]\<close> whose entry at every index is NaN when the validity entry of the keypoint of that
  index is 0, for every view and every index of the leading axes, and \<^verbatim>\<open>1.0\<close>
  otherwise.
\<close>

theorem invalid_keypoints_marked_nan:
  assumes "shape k = pre @ [n, d]" and "2 \<le> d" and "0 < n"
    and "shape km = [n]" and "wf_ndarray km" and "dtype k = Floating"
  shows "\<exists>m. parse_keypoints_mask (NdArray k) (NdArray km) = Inr m
       \<and> shape m = pre @ [n, 1] \<and> dtype m = Floating \<and> wf_ndarray m
       \<and> (\<forall>idx. valid_index (shape m) idx \<longrightarrow>
             item m idx = (if float_eq (data km ! (idx ! length pre)) 0 then NaN else Fin 1))"
proof -
  let ?tm = "np_ones (dtype k) (pre @ [n, 1])"
  let ?N = "prod_list (pre @ [n, 1])"
  let ?m = "?tm\<lparr>data := map (\<lambda>j. if j mod n \<in> set (where_zero_axis0 km) then NaN
                               else data ?tm ! j) [0..<length (data ?tm)]\<rparr>"
  have bl: "butlast (shape k) = pre @ [n]" and la: "last (shape k) = d"
    using assms(1) by (simp_all add: butlast_append)
  have "parse_keypoints_mask (NdArray k) (NdArray km) = mark_invalid ?tm km"
    using parse_ndarray_ndarray[of k km n "[]"] assms(1,2,4) bl la by simp
  also have "\<dots> = Inr ?m"
    by (rule mark_invalid_eq[where pre = pre])
      (use assms(3,6) where_zero_lt[OF assms(4,5)] in \<open>simp_all add: np_ones_def\<close>)
  finally have res: "parse_keypoints_mask (NdArray k) (NdArray km) = Inr ?m" .
  have sh: "shape ?m = pre @ [n, 1]" by (simp add: np_ones_def)
  have dt: "dtype ?m = Floating" using assms(6) by (simp add: np_ones_def)
  have len: "length (data ?m) = ?N" by (simp add: np_ones_def)
  have wf: "wf_ndarray ?m" using sh len by (simp add: wf_ndarray_def)
  have it: "item ?m idx = (if float_eq (data km ! (idx ! length pre)) 0 then NaN else Fin 1)"
    if "valid_index (shape ?m) idx" for idx
  proof -
    from that sh have v: "valid_index (pre @ [n, 1]) idx" by simp
    then obtain ipre kk z where idx: "idx = ipre @ [kk, z]" and l: "length ipre = length pre"
      and kk: "kk < n" and z: "z < 1"
      by (rule valid_index_split)
    have fi: "flat_index (pre @ [n, 1]) idx = flat_index pre ipre * n + kk"
      using z by (simp add: idx flat_index_append[OF l])
    have lt: "flat_index (pre @ [n, 1]) idx < ?N"
      using flat_index_lt[OF v] .
    have md: "flat_index (pre @ [n, 1]) idx mod n = kk"
      unfolding fi using kk by simp
    have nth: "idx ! length pre = kk"
      using l by (simp add: idx nth_append)
    have mem: "kk \<in> set (where_zero_axis0 km) \<longleftrightarrow> float_eq (data km ! kk) 0"
      using where_zero_vector[OF assms(4,5)] kk by simp
    have "item ?m idx = (if kk \<in> set (where_zero_axis0 km) then NaN else Fin 1)"
      using lt md by (simp add: item_def np_ones_def)
    then show ?thesis using mem nth by simp
  qed
  show ?thesis using res sh dt wf it by blast
qed

theorem invalid_keypoints_marked_nan_witness:
  "shape \<lparr>shape = [2, 3, 2], dtype = Floating, data = replicate 12 (Fin 5)\<rparr> = [2] @ [3, 2]
   \<and> (2 :: nat) \<le> 2 \<and> (0 :: nat) < 3
   \<and> shape \<lparr>shape = [3], dtype = Floating, data = [Fin 1, Fin 0, Fin 1]\<rparr> = [3]
   \<and> wf_ndarray \<lparr>shape = [3], dtype = Floating, data = [Fin 1, Fin 0, Fin 1]\<rparr>
   \<and> dtype \<lparr>shape = [2, 3, 2], dtype = Floating, data = replicate 12 (Fin 5)\<rparr> = Floating
   \<and> parse_keypoints_mask
        (NdArray \<lparr>shape = [2, 3, 2], dtype = Floating, data = replicate 12 (Fin 5)\<rparr>)
        (NdArray \<lparr>shape = [3], dtype = Floating, data = [Fin 1, Fin 0, Fin 1]\<rparr>)
       = Inr \<lparr>shape = [2, 3, 1], dtype = Floating,
              data = [Fin 1, NaN, Fin 1, Fin 1, NaN, Fin 1]\<rparr>
   \<and> valid_index [2, 3, 1] [1, 1, 0]
   \<and> item \<lparr>shape = [2, 3, 1], dtype = Floating, data = [Fin 1, NaN, Fin 1, Fin 1, NaN, Fin 1]\<rparr>
        [1, 1, 0] = NaN
   \<and> valid_index [2, 3, 1] [0, 2, 0]
   \<and> item \<lparr>shape = [2, 3, 1], dtype = Floating, data = [Fin 1, NaN, Fin 1, Fin 1, NaN, Fin 1]\<rparr>
        [0, 2, 0] = Fin 1"
proof -
  let ?k = "\<lparr>shape = [2, 3, 2], dtype = Floating, data = replicate 12 (Fin 5)\<rparr>"
  let ?km = "\<lparr>shape = [3], dtype = Floating, data = [Fin 1, Fin 0, Fin 1]\<rparr>"
  let ?m = "\<lparr>shape = [2, 3, 1], dtype = Floating, data = [Fin 1, NaN, Fin 1, Fin 1, NaN, Fin 1]\<rparr>"
  have s: "shape ?k = [2] @ [3, 2]" by simp
  have sk: "shape ?km = [3]" by simp
  have w: "wf_ndarray ?km" by (simp add: wf_ndarray_def)
  have r: "parse_keypoints_mask (NdArray ?k) (NdArray ?km) = Inr ?m" by code_simp
  have v1: "valid_index (shape ?m) [1, 1, 0]" and v2: "valid_index (shape ?m) [0, 2, 0]"
    by (simp_all add: valid_index_def)
  have f: "dtype ?k = Floating" by simp
  from invalid_keypoints_marked_nan[OF s _ _ sk w f] r
  have all: "\<forall>idx. valid_index (shape ?m) idx \<longrightarrow>
             item ?m idx = (if float_eq (data ?km ! (idx ! length [2 :: nat])) 0 then NaN
                            else Fin 1)"
    by auto
  have i1: "item ?m [1, 1, 0] = NaN"
    using all v1 by simp
  have i2: "item ?m [0, 2, 0] = Fin 1"
    using all v2 by simp
  show ?thesis using s sk w r v1 v2 i1 i2 by simp
qed

text \<open>
  C8. The claim as written fails where both counts are zero: the normalization
  succeeds, the counts are equal, and the reshape of the empty mask raises. It fails
  for keypoints of an integer type too: the counts are equal and the assignment of
  NaN into the integer mask raises.
\<close>

theorem equal_counts_without_keypoints_fail:
  "prepare_triangulate_input 1
     (NdArray \<lparr>shape = [1, 0, 3], dtype = Floating, data = []\<rparr>) PyNone
     = Inr (\<lparr>shape = [1, 0, 3], dtype = Floating, data = []\<rparr>,
            \<lparr>shape = [1, 0, 1], dtype = Floating, data = []\<rparr>)
   \<and> parse_keypoints_mask (NdArray \<lparr>shape = [1, 0, 3], dtype = Floating, data = []\<rparr>)
        (NdArray \<lparr>shape = [0], dtype = Floating, data = []\<rparr>) = Inl NumpyValueError
   \<and> prepare_triangulate_input 1
        (NdArray \<lparr>shape = [1, 2, 2], dtype = Integer, data = replicate 4 (Fin 7)\<rparr>) PyNone
       = Inr (\<lparr>shape = [1, 2, 2], dtype = Integer, data = replicate 4 (Fin 7)\<rparr>,
              \<lparr>shape = [1, 2, 1], dtype = Integer, data = replicate 2 (Fin 1)\<rparr>)
   \<and> parse_keypoints_mask
        (NdArray \<lparr>shape = [1, 2, 2], dtype = Integer, data = replicate 4 (Fin 7)\<rparr>)
        (NdArray \<lparr>shape = [2], dtype = Floating, data = [Fin 1, Fin 0]\<rparr>)
       = Inl NumpyValueError"
  by code_simp

text \<open>
  C8, amended. For keypoints that pass the normalization and a validity array with an
  axis 0, \<^verbatim>\<open>parse_keypoints_mask\<close> fails with KeypointCountMismatch exactly when
  \<^verbatim>\<open>keypoints.shape[-2]\<close> differs from \<^verbatim>\<open>keypoints_mask.shape[0]\<close>; when they are equal
  and not zero and the keypoints are floating-point it raises nothing.
\<close>

theorem keypoint_count_mismatch_iff:
  assumes "prepare_triangulate_input (int (hd (shape k))) (NdArray k) PyNone = Inr (kp, tm)"
    and "shape km = m0 # rest" and "wf_ndarray km"
  shows "(parse_keypoints_mask (NdArray k) (NdArray km) = Inl KeypointCountMismatch
            \<longleftrightarrow> last (butlast (shape k)) \<noteq> m0)
       \<and> (last (butlast (shape k)) = m0 \<and> 0 < m0 \<and> dtype k = Floating \<longrightarrow>
            (\<exists>r. parse_keypoints_mask (NdArray k) (NdArray km) = Inr r))"
proof -
  let ?pre = "butlast (butlast (shape k))" and ?n = "last (butlast (shape k))"
  let ?tm = "np_ones (dtype k) (?pre @ [?n, 1])"
  have r: "2 \<le> length (shape k)" "2 \<le> last (shape k)"
    using prepare_keypoints_success[OF assms(1)] by simp_all
  note p = parse_ndarray_ndarray[OF r assms(2)]
  show ?thesis
  proof (cases "?n = m0")
    case False
    then show ?thesis using p by simp
  next
    case eq: True
    have res: "parse_keypoints_mask (NdArray k) (NdArray km) = mark_invalid ?tm km"
      using p eq by simp
    have no: "mark_invalid ?tm km \<noteq> Inl KeypointCountMismatch"
      using mark_invalid_errors[of ?tm km KeypointCountMismatch] by auto
    have ok: "\<exists>r. mark_invalid ?tm km = Inr r" if "0 < m0" and "dtype k = Floating"
      using that eq where_zero_lt[OF assms(2,3)]
        mark_invalid_eq[where tm = ?tm and pre = ?pre and n = ?n and km = km]
      by (simp add: np_ones_def)
    show ?thesis using res no ok eq by auto
  qed
qed

theorem keypoint_count_mismatch_iff_witness:
  "prepare_triangulate_input 2
     (NdArray \<lparr>shape = [2, 3, 2], dtype = Floating, data = replicate 12 (Fin 5)\<rparr>) PyNone
     = Inr (\<lparr>shape = [2, 3, 2], dtype = Floating, data = replicate 12 (Fin 5)\<rparr>,
            \<lparr>shape = [2, 3, 1], dtype = Floating, data = replicate 6 (Fin 1)\<rparr>)
   \<and> shape \<lparr>shape = [3], dtype = Floating, data = [Fin 1, Fin 0, Fin 1]\<rparr> = 3 # []
   \<and> wf_ndarray \<lparr>shape = [3], dtype = Floating, data = [Fin 1, Fin 0, Fin 1]\<rparr>
   \<and> parse_keypoints_mask
        (NdArray \<lparr>shape = [2, 3, 2], dtype = Floating, data = replicate 12 (Fin 5)\<rparr>)
        (NdArray \<lparr>shape = [3], dtype = Floating, data = [Fin 1, Fin 0, Fin 1]\<rparr>)
       = Inr \<lparr>shape = [2, 3, 1], dtype = Floating, data = [Fin 1, NaN, Fin 1, Fin 1, NaN, Fin 1]\<rparr>
   \<and> shape \<lparr>shape = [4], dtype = Floating, data = [Fin 1, Fin 0, Fin 1, Fin 1]\<rparr> = 4 # []
   \<and> wf_ndarray \<lparr>shape = [4], dtype = Floating, data = [Fin 1, Fin 0, Fin 1, Fin 1]\<rparr>
   \<and> parse_keypoints_mask
        (NdArray \<lparr>shape = [2, 3, 2], dtype = Floating, data = replicate 12 (Fin 5)\<rparr>)
        (NdArray \<lparr>shape = [4], dtype = Floating, data = [Fin 1, Fin 0, Fin 1, Fin 1]\<rparr>)
       = Inl KeypointCountMismatch"
proof -
  let ?k = "\<lparr>shape = [2, 3, 2], dtype = Floating, data = replicate 12 (Fin 5)\<rparr>"
  let ?o = "\<lparr>shape = [2, 3, 1], dtype = Floating, data = replicate 6 (Fin 1)\<rparr>"
  let ?km = "\<lparr>shape = [3], dtype = Floating, data = [Fin 1, Fin 0, Fin 1]\<rparr>"
  let ?k4 = "\<lparr>shape = [4], dtype = Floating, data = [Fin 1, Fin 0, Fin 1, Fin 1]\<rparr>"
  have p: "prepare_triangulate_input (int (hd (shape ?k))) (NdArray ?k) PyNone = Inr (?k, ?o)"
    by code_simp
  have s3: "shape ?km = 3 # []" and s4: "shape ?k4 = 4 # []" by simp_all
  have w3: "wf_ndarray ?km" and w4: "wf_ndarray ?k4" by (simp_all add: wf_ndarray_def)
  let ?m = "\<lparr>shape = [2, 3, 1], dtype = Floating, data = [Fin 1, NaN, Fin 1, Fin 1, NaN, Fin 1]\<rparr>"
  have r3: "parse_keypoints_mask (NdArray ?k) (NdArray ?km) = Inr ?m" by code_simp
  have r4: "parse_keypoints_mask (NdArray ?k) (NdArray ?k4) = Inl KeypointCountMismatch"
    using keypoint_count_mismatch_iff[OF p s4 w4] by simp
  have "\<exists>r. parse_keypoints_mask (NdArray ?k) (NdArray ?km) = Inr r"
    using keypoint_count_mismatch_iff[OF p s3 w3] by simp
  then show ?thesis using p s3 w3 r3 s4 w4 r4 by simp
qed

text \<open>
  C9. The claim as written fails for an array of a single axis: the mask synthesized
  from the slice \<^verbatim>\<open>0:1\<close> of that axis has leading length 1, which differs from the
  length of the keypoints.
\<close>

theorem single_axis_view_count_mismatch:
  "parse_keypoints_mask (NdArray \<lparr>shape = [3], dtype = Floating, data = [Fin 4, Fin 5, Fin 6]\<rparr>)
     (NdArray \<lparr>shape = [3], dtype = Floating, data = [Fin 1, Fin 1, Fin 1]\<rparr>) = Inl ViewCountMismatch"
  by code_simp

text \<open>
  C9, amended. \<^verbatim>\<open>parse_keypoints_mask\<close> fails with ViewCountMismatch for an ndarray of
  a single axis of length 2 or more, and for no other input: for every ndarray of two
  or more axes the view-count check is satisfied, since \<^verbatim>\<open>camera_number\<close> is the
  leading length of the keypoints themselves.
\<close>

theorem view_count_mismatch_iff_single_axis:
  "parse_keypoints_mask keypoints keypoints_mask = Inl ViewCountMismatch
     \<longleftrightarrow> (\<exists>k n. keypoints = NdArray k \<and> shape k = [n] \<and> 2 \<le> n)"
proof
  assume "\<exists>k n. keypoints = NdArray k \<and> shape k = [n] \<and> 2 \<le> n"
  then obtain k n where "keypoints = NdArray k" and "shape k = [n]" and "2 \<le> n" by blast
  then show "parse_keypoints_mask keypoints keypoints_mask = Inl ViewCountMismatch"
    using parse_ndarray[of k keypoints_mask] by simp
next
  assume vcm: "parse_keypoints_mask keypoints keypoints_mask = Inl ViewCountMismatch"
  then obtain k where k: "keypoints = NdArray k"
    using parse_not_ndarray[of keypoints keypoints_mask] by auto
  have ne: "shape k \<noteq> []"
    using vcm k parse_scalar_array[of k keypoints_mask] by auto
  have "length (shape k) = 1 \<and> 2 \<le> hd (shape k)"
  proof (rule ccontr)
    assume c: "\<not> (length (shape k) = 1 \<and> 2 \<le> hd (shape k))"
    show False
    proof (cases "last (shape k) < 2")
      case True
      have "parse_keypoints_mask (NdArray k) keypoints_mask = Inl CoordWidthTooSmall"
        unfolding parse_ndarray[OF ne] using c True by (simp only: if_False if_True)
      then show False using vcm k by simp
    next
      case False
      have "(case with_shape keypoints_mask of
           Inl e \<Rightarrow> Inl e
         | Inr km \<Rightarrow>
             (case shape0 km of
                Inl e \<Rightarrow> Inl e
              | Inr n_mask \<Rightarrow>
                  if last (butlast (shape k)) \<noteq> n_mask then Inl KeypointCountMismatch
                  else mark_invalid (np_ones (dtype k) (butlast (shape k) @ [1])) km))
          = parse_keypoints_mask (NdArray k) keypoints_mask"
        unfolding parse_ndarray[OF ne] using c False by (simp only: if_False)
      then have "(case with_shape keypoints_mask of
           Inl e \<Rightarrow> Inl e
         | Inr km \<Rightarrow>
             (case shape0 km of
                Inl e \<Rightarrow> Inl e
              | Inr n_mask \<Rightarrow>
                  if last (butlast (shape k)) \<noteq> n_mask then Inl KeypointCountMismatch
                  else mark_invalid (np_ones (dtype k) (butlast (shape k) @ [1])) km))
          = Inl ViewCountMismatch"
        using vcm k by simp
      then show False
        by (cases keypoints_mask)
          (auto simp: shape0_def split: sum.splits list.splits if_splits
            dest: mark_invalid_errors)
    qed
  qed
  then obtain n where "shape k = [n]" and "2 \<le> n"
    by (cases "shape k") auto
  then show "\<exists>k n. keypoints = NdArray k \<and> shape k = [n] \<and> 2 \<le> n"
    using k by blast
qed

theorem view_count_mismatch_iff_single_axis_witness:
  "parse_keypoints_mask
     (NdArray \<lparr>shape = [2, 3, 2], dtype = Floating, data = replicate 12 (Fin 5)\<rparr>)
     (NdArray \<lparr>shape = [3], dtype = Floating, data = [Fin 1, Fin 0, Fin 1]\<rparr>)
     \<noteq> Inl ViewCountMismatch
   \<and> parse_keypoints_mask (NdArray \<lparr>shape = [2], dtype = Floating, data = [Fin 7, Fin 8]\<rparr>) PyNone
       = Inl ViewCountMismatch"
  using
    view_count_mismatch_iff_single_axis[of
      "NdArray \<lparr>shape = [2, 3, 2], dtype = Floating, data = replicate 12 (Fin 5)\<rparr>"
      "NdArray \<lparr>shape = [3], dtype = Floating, data = [Fin 1, Fin 0, Fin 1]\<rparr>"]
    view_count_mismatch_iff_single_axis[of
      "NdArray \<lparr>shape = [2], dtype = Floating, data = [Fin 7, Fin 8]\<rparr>" PyNone]
  by simp

text \<open>
  C10. The claim as written fails for a call that omits \<^verbatim>\<open>keypoints_mask\<close> with
  keypoints that do not pass the normalization: that failure comes first.
\<close>

theorem omitted_mask_after_normalization_failure:
  "parse_keypoints_mask
     (NdArray \<lparr>shape = [2, 3, 1], dtype = Floating, data = [Fin 1, Fin 2, Fin 3, Fin 4, Fin 5, Fin 6]\<rparr>)
     PyNone = Inl CoordWidthTooSmall"
  by code_simp

text \<open>
  C10, amended. \<^verbatim>\<open>keypoints.shape\<close> is read before any conversion and
  \<^verbatim>\<open>keypoints_mask.shape\<close> is read whatever the mask is: every list or tuple of
  keypoints fails with an AttributeError; no call that omits \<^verbatim>\<open>keypoints_mask\<close>
  returns a mask, and it fails with an AttributeError whenever the keypoints pass the
  normalization.
\<close>

theorem shape_read_before_coercion:
  "parse_keypoints_mask (PyList ys) keypoints_mask = Inl AttributeError
   \<and> parse_keypoints_mask (PyTuple ys) keypoints_mask = Inl AttributeError
   \<and> (\<forall>r. parse_keypoints_mask keypoints PyNone \<noteq> Inr r)
   \<and> ((\<exists>kp tm. prepare_triangulate_input (int (hd (shape k))) (NdArray k) PyNone = Inr (kp, tm))
        \<longrightarrow> parse_keypoints_mask (NdArray k) PyNone = Inl AttributeError)"
proof -
  have a: "parse_keypoints_mask (PyList ys) keypoints_mask = Inl AttributeError"
    and b: "parse_keypoints_mask (PyTuple ys) keypoints_mask = Inl AttributeError"
    by (simp_all add: parse_keypoints_mask_def)
  have c: "parse_keypoints_mask keypoints PyNone \<noteq> Inr r" for r
    by (auto simp: parse_keypoints_mask_def split: sum.splits prod.splits)
  have d: "parse_keypoints_mask (NdArray k) PyNone = Inl AttributeError"
    if "prepare_triangulate_input (int (hd (shape k))) (NdArray k) PyNone = Inr (kp, tm)"
    for kp tm
  proof -
    have r: "2 \<le> length (shape k)" "2 \<le> last (shape k)"
      using prepare_keypoints_success[OF that] by simp_all
    then have "shape k \<noteq> []" by auto
    then show ?thesis
      using r parse_ndarray[of k PyNone] by auto
  qed
  show ?thesis using a b c d by blast
qed

theorem shape_read_before_coercion_witness:
  "prepare_triangulate_input 2
     (NdArray \<lparr>shape = [2, 3, 2], dtype = Floating, data = replicate 12 (Fin 5)\<rparr>) PyNone
     = Inr (\<lparr>shape = [2, 3, 2], dtype = Floating, data = replicate 12 (Fin 5)\<rparr>,
            \<lparr>shape = [2, 3, 1], dtype = Floating, data = replicate 6 (Fin 1)\<rparr>)
   \<and> parse_keypoints_mask
        (NdArray \<lparr>shape = [2, 3, 2], dtype = Floating, data = replicate 12 (Fin 5)\<rparr>) PyNone
       = Inl AttributeError
   \<and> parse_keypoints_mask (PyList [PySeq [PySeq [PyFloat (Fin 1), PyFloat (Fin 2)]]])
        (NdArray \<lparr>shape = [1], dtype = Floating, data = [Fin 1]\<rparr>) = Inl AttributeError"
proof -
  let ?k = "\<lparr>shape = [2, 3, 2], dtype = Floating, data = replicate 12 (Fin 5)\<rparr>"
  let ?o = "\<lparr>shape = [2, 3, 1], dtype = Floating, data = replicate 6 (Fin 1)\<rparr>"
  have p: "prepare_triangulate_input (int (hd (shape ?k))) (NdArray ?k) PyNone = Inr (?k, ?o)"
    by code_simp
  have "parse_keypoints_mask (NdArray ?k) PyNone = Inl AttributeError"
    using shape_read_before_coercion[of _ _ _ ?k] p by blast
  moreover have "parse_keypoints_mask (PyList [PySeq [PySeq [PyFloat (Fin 1), PyFloat (Fin 2)]]])
        (NdArray \<lparr>shape = [1], dtype = Floating, data = [Fin 1]\<rparr>) = Inl AttributeError"
    using shape_read_before_coercion[of "[PySeq [PySeq [PyFloat (Fin 1), PyFloat (Fin 2)]]]"
        "NdArray \<lparr>shape = [1], dtype = Floating, data = [Fin 1]\<rparr>"] by blast
  ultimately show ?thesis using p by simp
qed

end
